theory Spec2Isabelle
  imports Complex_Main
begin

section \<open>The screenshot script (.github/scripts/screenshot.js)\<close>

text \<open>
  The script reads a ledger of timestamps, lists the project folders of the repository
  root, asks the GitHub GraphQL API for each project's homepage and last commit date,
  takes a screenshot where the commit is newer than the ledger entry, and writes the
  ledger back once.

  The libraries the script calls (the GraphQL client, Puppeteer, \<open>JSON\<close>, \<open>Date\<close>) are
  parameters of the model, collected in the record \<open>env\<close>; the file system is a value,
  \<open>world\<close>. Every \<open>throw\<close> of a library call or of the language is a value \<open>Inl err\<close>
  (the texts of the messages are abbreviated).

  The ledger is the value \<open>JSON.parse\<close> returns, whatever it is: the script does not
  check that it is an object. \<open>timestamps[project]\<close> and
  \<open>timestamps[project] = committedDate\<close> are the property read and the assignment of
  the language, in strict mode, on that value. A homepage URL and a commit date are
  \<open>string|null\<close>, as the GraphQL schema and the JSDoc have them. The names in a directory
  are distinct; the theorems that need it assume it of the root directory.
\<close>

subsection \<open>Errors, console output, truthiness\<close>

datatype error = Error (message: string)

text \<open>
  The values of the ledger: what \<open>JSON.parse\<close> returns (null, a boolean, a number, a
  string, an array, an object) and what a property read gives besides, \<open>undefined\<close> and
  a built-in function or object found on a prototype (\<open>JNative\<close>, with the name it was
  found under). A number is a double that came from a JSON literal: a real, or an
  infinity when the literal overflows (there is no NaN in JSON; the zero stands for
  both zeros). An object is its own properties in creation order. An array is its
  elements and the own properties it has besides (none after \<open>JSON.parse\<close>).
\<close>

datatype jsnum = Finite real | PlusInfinity | MinusInfinity

datatype jsval =
    JUndefined
  | JNull
  | JBool bool
  | JNum jsnum
  | JStr string
  | JArr "jsval list" "(string \<times> jsval) list"
  | JObj "(string \<times> jsval) list"
  | JNative string

datatype msg =
    ErrNoToken
  | WarnParse
  | Found "string list"
  | Processing string
  | SkipNoDate string
  | UpToDate string jsval
  | NoHomepage string
  | NewCommits string
  | ScreenshotSaved string
  | DoneMsg
  | ErrProcessing string string
  | Finished nat nat
  | FinishedNoUpdates
  | Fatal error

text \<open>
  One constructor of \<open>msg\<close> for each \<open>console\<close> call of the script, with the values its
  text interpolates (\<open>ScreenshotSaved\<close> carries the output path, which the script prints
  relative to \<open>ROOT_DIR\<close>).
\<close>

text \<open>
  JavaScript's truthiness on a \<open>string|null|undefined\<close>: \<open>null\<close>, \<open>undefined\<close> (both
  \<open>None\<close>) and the empty string are falsy, every other string is truthy.
\<close>

fun truthy :: "string option \<Rightarrow> bool" where
  "truthy None = False"
| "truthy (Some s) = (s \<noteq> [])"

text \<open>The truthiness of a value of the ledger.\<close>

fun ToBoolean :: "jsval \<Rightarrow> bool" where
  "ToBoolean JUndefined = False"
| "ToBoolean JNull = False"
| "ToBoolean (JBool b) = b"
| "ToBoolean (JNum n) = (n \<noteq> Finite 0)"
| "ToBoolean (JStr s) = (s \<noteq> [])"
| "ToBoolean (JArr xs ps) = True"
| "ToBoolean (JObj ps) = True"
| "ToBoolean (JNative n) = True"

text \<open>\<open>v || null\<close>\<close>

definition or_null :: "string option \<Rightarrow> string option" where
  "or_null v = (if truthy v then v else None)"

text \<open>\<open>s.startsWith('.')\<close> and \<open>s.endsWith(suf)\<close>\<close>

fun startsWithDot :: "string \<Rightarrow> bool" where
  "startsWithDot [] = False"
| "startsWithDot (c # cs) = (c = CHR ''.'')"

definition endsWith :: "string \<Rightarrow> string \<Rightarrow> bool" where
  "endsWith s suf = (length suf \<le> length s \<and> drop (length s - length suf) s = suf)"

text \<open>
  \<open>path.join\<close> (POSIX) on a first segment that \<open>path.resolve\<close> returned, which is
  normalised and ends with a slash only when it is the root, and further segments that
  are plain names: the segments, joined by a slash, with no second slash after the root.
\<close>

fun path_join :: "string list \<Rightarrow> string" where
  "path_join [] = ''.''"
| "path_join [a] = a"
| "path_join (a # b # r) =
     (if endsWith a ''/'' then a @ path_join (b # r) else a @ ''/'' @ path_join (b # r))"

subsection \<open>The file system\<close>

text \<open>
  The tree below \<open>ROOT_DIR\<close>: a node is a regular file or a directory with its entries
  in enumeration order. The bytes of a file are not modelled (a screenshot overwrites
  an image that is there already, which changes no name).
\<close>

datatype node = File | Dir "(string \<times> node) list"

fun isDirectory :: "node \<Rightarrow> bool" where
  "isDirectory File = False"
| "isDirectory (Dir es) = True"

text \<open>Resolving a path, given as its segments below the root.\<close>

fun lookup :: "(string \<times> node) list \<Rightarrow> string list \<Rightarrow> node option" where
  "lookup es [] = Some (Dir es)"
| "lookup es (x # xs) =
     (case map_of es x of
        None \<Rightarrow> None
      | Some File \<Rightarrow> (if xs = [] then Some File else None)
      | Some (Dir ds) \<Rightarrow> lookup ds xs)"

definition existsSync :: "(string \<times> node) list \<Rightarrow> string list \<Rightarrow> bool" where
  "existsSync es p = (lookup es p \<noteq> None)"

definition readdirSync :: "(string \<times> node) list \<Rightarrow> string list \<Rightarrow> error + string list" where
  "readdirSync es p =
     (case lookup es p of
        None \<Rightarrow> Inl (Error ''ENOENT: no such file or directory, scandir'')
      | Some File \<Rightarrow> Inl (Error ''ENOTDIR: not a directory, scandir'')
      | Some (Dir ds) \<Rightarrow> Inr (map fst ds))"

text \<open>
  The state file \<open>.github/data/screenshot-timestamps.json\<close> lives below a hidden
  directory, which discovery never enters; it is kept apart from the tree.
  \<open>Blocked\<close>: a segment of its directory path is a regular file.
\<close>

datatype statefile = Missing | Blocked | Directory | Regular string

fun existsSync_file :: "statefile \<Rightarrow> bool" where
  "existsSync_file (Regular c) = True"
| "existsSync_file Directory = True"
| "existsSync_file Missing = False"
| "existsSync_file Blocked = False"

fun readFileSync :: "statefile \<Rightarrow> error + string" where
  "readFileSync (Regular c) = Inr c"
| "readFileSync Directory = Inl (Error ''EISDIR: illegal operation on a directory, read'')"
| "readFileSync Missing = Inl (Error ''ENOENT: no such file or directory, open'')"
| "readFileSync Blocked = Inl (Error ''ENOTDIR: not a directory, open'')"

text \<open>\<open>fs.mkdirSync(dir, { recursive: true })\<close> on the state file's directory\<close>

fun mkdirSync :: "statefile \<Rightarrow> error + unit" where
  "mkdirSync Blocked = Inl (Error ''EEXIST: file already exists, mkdir'')"
| "mkdirSync f = Inr ()"

fun writeFileSync :: "statefile \<Rightarrow> string \<Rightarrow> error + statefile" where
  "writeFileSync Directory c = Inl (Error ''EISDIR: illegal operation on a directory, open'')"
| "writeFileSync Blocked c = Inl (Error ''ENOTDIR: not a directory, open'')"
| "writeFileSync f c = Inr (Regular c)"

record world =
  entries :: "(string \<times> node) list"
  stateFile :: statefile

subsection \<open>The environment\<close>

text \<open>The GraphQL response, as the query shapes it; an absent or null field is \<open>None\<close>.\<close>

record gql_target =
  target_committedDate :: "string option"

record gql_ref =
  ref_target :: "gql_target option"

record gql_repository =
  repo_homepageUrl :: "string option"
  repo_defaultBranchRef :: "gql_ref option"

record gql_result =
  repository :: "gql_repository option"

text \<open>
  One Puppeteer session, for a URL and an output path: whether \<open>launch\<close> throws, whether
  the page steps (\<open>newPage\<close>, \<open>setViewport\<close>, \<open>goto\<close>, \<open>screenshot\<close> with an image type)
  throw, whether \<open>close\<close> throws.
\<close>

record session =
  launch :: "error + unit"
  page :: "string \<Rightarrow> error + unit"
  close :: "error + unit"

text \<open>
  \<open>Date_parse s\<close> is the time of \<open>new Date(s)\<close> for a string, \<open>Date_value v\<close> that of
  \<open>new Date(v)\<close> for another value, in milliseconds; \<open>None\<close> is the invalid date.
  \<open>exotic_get\<close> is the property read on a boolean, a number, a string, an array or a
  built-in, which goes through the engine's wrappers and prototypes; \<open>exotic_set\<close> is
  the assignment of a string to a property of an array or a built-in.
\<close>

record env =
  GITHUB_TOKEN :: "string option"
  ROOT_DIR :: string
  JSON_parse :: "string \<Rightarrow> error + jsval"
  JSON_stringify :: "jsval \<Rightarrow> string"
  Date_parse :: "string \<Rightarrow> int option"
  Date_value :: "jsval \<Rightarrow> int option"
  exotic_get :: "jsval \<Rightarrow> string \<Rightarrow> jsval"
  exotic_set :: "jsval \<Rightarrow> string \<Rightarrow> string \<Rightarrow> error + jsval"
  graphql :: "string \<Rightarrow> string \<Rightarrow> error + gql_result"
  puppeteer :: "string \<Rightarrow> string \<Rightarrow> session"

definition REPO_OWNER :: string where
  "REPO_OWNER = ''tanay-787''"

subsection \<open>Property read and assignment on the ledger\<close>

text \<open>The own property names of \<open>Object.prototype\<close>.\<close>

definition Object_prototype :: "string list" where
  "Object_prototype =
     [''constructor'', ''__defineGetter__'', ''__defineSetter__'', ''hasOwnProperty'',
      ''__lookupGetter__'', ''__lookupSetter__'', ''isPrototypeOf'', ''propertyIsEnumerable'',
      ''toString'', ''valueOf'', ''__proto__'', ''toLocaleString'']"

text \<open>
  \<open>v[k]\<close>: a \<open>TypeError\<close> on \<open>null\<close> and \<open>undefined\<close>; on an object its own property,
  else the member of \<open>Object.prototype\<close> of that name, else \<open>undefined\<close>.
\<close>

fun getProp :: "env \<Rightarrow> jsval \<Rightarrow> string \<Rightarrow> error + jsval" where
  "getProp env JUndefined k = Inl (Error ''TypeError: Cannot read properties of undefined'')"
| "getProp env JNull k = Inl (Error ''TypeError: Cannot read properties of null'')"
| "getProp env (JObj ps) k =
     Inr (case map_of ps k of
            Some x \<Rightarrow> x
          | None \<Rightarrow> if k \<in> set Object_prototype then JNative k else JUndefined)"
| "getProp env v k = Inr (exotic_get env v k)"

text \<open>Setting an own property of an object: in place when it is there, else added last.\<close>

fun assign :: "(string \<times> jsval) list \<Rightarrow> string \<Rightarrow> jsval \<Rightarrow> (string \<times> jsval) list" where
  "assign [] k x = [(k, x)]"
| "assign ((k', x') # ps) k x =
     (if k' = k then (k, x) # ps else (k', x') # assign ps k x)"

text \<open>
  \<open>v[k] = cd\<close> for a string \<open>cd\<close>, in strict mode; the result is the value \<open>v\<close> holds
  afterwards. On an object it sets the own property, but for \<open>__proto__\<close> when the object
  has no own property of that name: then it reaches the setter of
  \<open>Object.prototype.__proto__\<close>, which ignores a string. On a boolean, a number or a
  string the same setter is reached for \<open>__proto__\<close>, and every other name is a
  \<open>TypeError\<close>.
\<close>

fun setProp :: "env \<Rightarrow> jsval \<Rightarrow> string \<Rightarrow> string \<Rightarrow> error + jsval" where
  "setProp env JUndefined k cd = Inl (Error ''TypeError: Cannot set properties of undefined'')"
| "setProp env JNull k cd = Inl (Error ''TypeError: Cannot set properties of null'')"
| "setProp env (JObj ps) k cd =
     (if k = ''__proto__'' \<and> map_of ps k = None then Inr (JObj ps)
      else Inr (JObj (assign ps k (JStr cd))))"
| "setProp env (JArr xs ps) k cd = exotic_set env (JArr xs ps) k cd"
| "setProp env (JNative n) k cd = exotic_set env (JNative n) k cd"
| "setProp env v k cd =
     (if k = ''__proto__'' then Inr v
      else Inl (Error ''TypeError: Cannot create property on a primitive value''))"

subsection \<open>readTimestamps, writeTimestamps\<close>

text \<open>
  \<open>try { return JSON.parse(fs.readFileSync(...)) } catch { console.warn(...) }\<close>, then
  \<open>return {}\<close>. The result carries the console lines written.
\<close>

definition readTimestamps :: "env \<Rightarrow> statefile \<Rightarrow> error + (jsval \<times> msg list)" where
  "readTimestamps env f =
     (if existsSync_file f then
        (case (case readFileSync f of Inl e \<Rightarrow> Inl e | Inr text \<Rightarrow> JSON_parse env text) of
           Inr l \<Rightarrow> Inr (l, [])
         | Inl e \<Rightarrow> Inr (JObj [], [WarnParse]))
      else Inr (JObj [], []))"

definition writeTimestamps :: "env \<Rightarrow> statefile \<Rightarrow> jsval \<Rightarrow> error + statefile" where
  "writeTimestamps env f timestamps =
     (case mkdirSync f of
        Inl e \<Rightarrow> Inl e
      | Inr u \<Rightarrow> writeFileSync f (JSON_stringify env timestamps @ [CHR 0x0A]))"

subsection \<open>getProjectFolders\<close>

text \<open>
  The second \<open>filter\<close>: its callback throws when \<open>readdirSync\<close> does, which ends the
  whole call.
\<close>

definition isShowcase :: "string \<Rightarrow> bool" where
  "isShowcase f = (f = ''Showcase.png'' \<or> f = ''Showcase.webp'')"

fun hasShowcase :: "(string \<times> node) list \<Rightarrow> string list \<Rightarrow> error + string list" where
  "hasShowcase es [] = Inr []"
| "hasShowcase es (name # names) =
     (if \<not> existsSync es [name, ''assets''] then hasShowcase es names
      else case readdirSync es [name, ''assets''] of
             Inl e \<Rightarrow> Inl e
           | Inr files \<Rightarrow>
               (case hasShowcase es names of
                  Inl e \<Rightarrow> Inl e
                | Inr kept \<Rightarrow> Inr (if list_ex isShowcase files then name # kept else kept)))"

definition getProjectFolders :: "(string \<times> node) list \<Rightarrow> error + string list" where
  "getProjectFolders es =
     hasShowcase es
       (map fst (filter (\<lambda>entry. isDirectory (snd entry) \<and> \<not> startsWithDot (fst entry)) es))"

subsection \<open>getRepoInfo\<close>

record repo_info =
  homepageUrl :: "string option"
  committedDate :: "string option"

definition getRepoInfo :: "env \<Rightarrow> string \<Rightarrow> string \<Rightarrow> error + repo_info" where
  "getRepoInfo env owner name =
     (case graphql env owner name of
        Inl e \<Rightarrow> Inl e
      | Inr result \<Rightarrow>
          (let repo = repository result in
           Inr \<lparr> homepageUrl = or_null (Option.bind repo repo_homepageUrl),
                 committedDate =
                   or_null (Option.bind (Option.bind (Option.bind repo repo_defaultBranchRef)
                              ref_target) target_committedDate) \<rparr>))"

subsection \<open>takeScreenshot, getShowcasePath\<close>

text \<open>
  \<open>launch\<close>, then \<open>try { page steps; console.log } finally { close }\<close>: an error of
  \<open>close\<close> replaces the outcome of the \<open>try\<close> block.
\<close>

definition takeScreenshot :: "env \<Rightarrow> string \<Rightarrow> string \<Rightarrow> msg list \<times> (error + unit)" where
  "takeScreenshot env url outputPath =
     (let browser = puppeteer env url outputPath in
      case launch browser of
        Inl e \<Rightarrow> ([], Inl e)
      | Inr u \<Rightarrow>
          (let imageType = (if endsWith outputPath ''.webp'' then ''webp'' else ''png'');
               body = (case page browser imageType of
                         Inl e \<Rightarrow> ([], Inl e)
                       | Inr u \<Rightarrow> ([ScreenshotSaved outputPath], Inr ()))
           in case close browser of
                Inl e \<Rightarrow> (fst body, Inl e)
              | Inr u \<Rightarrow> body))"

definition getShowcasePath :: "env \<Rightarrow> (string \<times> node) list \<Rightarrow> string \<Rightarrow> string" where
  "getShowcasePath env es project =
     (if existsSync es [project, ''assets'', ''Showcase.png'']
      then path_join [ROOT_DIR env, project, ''assets'', ''Showcase.png'']
      else path_join [ROOT_DIR env, project, ''assets'', ''Showcase.webp''])"

subsection \<open>main\<close>

text \<open>
  The variables of \<open>main\<close>, the console, and the calls of \<open>takeScreenshot\<close> made so far,
  each with the project in whose iteration it was made, the URL and the output path.
\<close>

record state =
  timestamps :: jsval
  screenshotCount :: nat
  timestampOnlyCount :: nat
  console :: "msg list"
  calls :: "(string \<times> string \<times> string) list"

definition say :: "msg list \<Rightarrow> state \<Rightarrow> state" where
  "say ms s = s\<lparr>console := console s @ ms\<rparr>"

text \<open>
  \<open>new Date(committedDate) <= new Date(lastScreenshot)\<close>: false when either date is
  invalid (its time is NaN).
\<close>

definition toTime :: "env \<Rightarrow> jsval \<Rightarrow> int option" where
  "toTime env v = (case v of JStr s \<Rightarrow> Date_parse env s | _ \<Rightarrow> Date_value env v)"

definition date_le :: "env \<Rightarrow> string \<Rightarrow> jsval \<Rightarrow> bool" where
  "date_le env cd v =
     (case Date_parse env cd of
        None \<Rightarrow> False
      | Some x \<Rightarrow> (case toTime env v of None \<Rightarrow> False | Some y \<Rightarrow> x \<le> y))"

text \<open>
  The body of the \<open>try\<close> block of one iteration: the state when the block is left, and
  the error thrown, if any. \<open>continue\<close> leaves the block without an error. The read of
  line 178 and the assignments of lines 188 and 198 can throw, as the calls can.
\<close>

definition tryProject :: "env \<Rightarrow> (string \<times> node) list \<Rightarrow> string \<Rightarrow> state \<Rightarrow> state \<times> error option" where
  "tryProject env es project s =
     (case getRepoInfo env REPO_OWNER project of
        Inl err \<Rightarrow> (s, Some err)
      | Inr info \<Rightarrow>
          (case committedDate info of
             None \<Rightarrow> (say [SkipNoDate project] s, None)
           | Some cd \<Rightarrow>
               if cd = [] then (say [SkipNoDate project] s, None)
               else
                 (case getProp env (timestamps s) project of
                    Inl err \<Rightarrow> (s, Some err)
                  | Inr lastScreenshot \<Rightarrow>
                      if ToBoolean lastScreenshot \<and> date_le env cd lastScreenshot
                      then (say [UpToDate cd lastScreenshot] s, None)
                      else if \<not> truthy (homepageUrl info)
                      then
                        (let s1 = say [NoHomepage project] s in
                         case setProp env (timestamps s1) project cd of
                           Inl err \<Rightarrow> (s1, Some err)
                         | Inr ts \<Rightarrow>
                             (s1\<lparr>timestamps := ts,
                                 timestampOnlyCount := timestampOnlyCount s1 + 1\<rparr>, None))
                      else
                        (case homepageUrl info of
                           None \<Rightarrow> (s, None)
                         | Some url \<Rightarrow>
                             (let s1 = say [NewCommits url] s;
                                  outputPath = getShowcasePath env es project;
                                  shot = takeScreenshot env url outputPath;
                                  s2 = say (fst shot)
                                         (s1\<lparr>calls := calls s1 @ [(project, url, outputPath)]\<rparr>)
                              in case snd shot of
                                   Inl err \<Rightarrow> (s2, Some err)
                                 | Inr u \<Rightarrow>
                                     (case setProp env (timestamps s2) project cd of
                                        Inl err \<Rightarrow> (s2, Some err)
                                      | Inr ts \<Rightarrow>
                                          (say [DoneMsg]
                                             (s2\<lparr>timestamps := ts,
                                                 screenshotCount := screenshotCount s2 + 1\<rparr>),
                                           None)))))))"

definition processProject :: "env \<Rightarrow> (string \<times> node) list \<Rightarrow> string \<Rightarrow> state \<Rightarrow> state" where
  "processProject env es project s =
     (let r = tryProject env es project (say [Processing project] s) in
      case snd r of
        None \<Rightarrow> fst r
      | Some err \<Rightarrow> say [ErrProcessing project (message err)] (fst r))"

text \<open>\<open>for (const project of projects) { ... }\<close>\<close>

fun processAll :: "env \<Rightarrow> (string \<times> node) list \<Rightarrow> string list \<Rightarrow> state \<Rightarrow> state" where
  "processAll env es [] s = s"
| "processAll env es (project # projects) s =
     processAll env es projects (processProject env es project s)"

record outcome =
  exitCode :: nat
  final :: state
  file_after :: statefile

definition start :: "jsval \<Rightarrow> msg list \<Rightarrow> state" where
  "start l ms =
     \<lparr> timestamps = l, screenshotCount = 0, timestampOnlyCount = 0, console = ms, calls = [] \<rparr>"

text \<open>
  The whole run, with \<open>main().catch\<close>: \<open>process.exit(1)\<close> without a token; an error that
  leaves \<open>main\<close> is printed as fatal, with exit status 1; otherwise the status is 0.
  (\<open>timestamps\<close> is \<open>undefined\<close> as long as \<open>readTimestamps\<close> has not returned.)
\<close>

definition main :: "env \<Rightarrow> world \<Rightarrow> outcome" where
  "main env w =
     (if \<not> truthy (GITHUB_TOKEN env)
      then \<lparr> exitCode = 1, final = start JUndefined [ErrNoToken], file_after = stateFile w \<rparr>
      else
        case readTimestamps env (stateFile w) of
          Inl err \<Rightarrow>
            \<lparr> exitCode = 1, final = start JUndefined [Fatal err], file_after = stateFile w \<rparr>
        | Inr (ts, warned) \<Rightarrow>
            (case getProjectFolders (entries w) of
               Inl err \<Rightarrow>
                 \<lparr> exitCode = 1, final = start ts (warned @ [Fatal err]),
                   file_after = stateFile w \<rparr>
             | Inr projects \<Rightarrow>
                 (let s = processAll env (entries w) projects (start ts (warned @ [Found projects]))
                  in case writeTimestamps env (stateFile w) (timestamps s) of
                       Inl err \<Rightarrow>
                         \<lparr> exitCode = 1, final = say [Fatal err] s, file_after = stateFile w \<rparr>
                     | Inr f \<Rightarrow>
                         \<lparr> exitCode = 0,
                           final = say [if screenshotCount s > 0 \<or> timestampOnlyCount s > 0
                                        then Finished (screenshotCount s) (timestampOnlyCount s)
                                        else FinishedNoUpdates] s,
                           file_after = f \<rparr>)))"

subsection \<open>Reading a run\<close>

text \<open>The calls of \<open>takeScreenshot\<close> made in the iteration of one project.\<close>

definition callsFor :: "string \<Rightarrow> state \<Rightarrow> (string \<times> string \<times> string) list" where
  "callsFor p s = filter (\<lambda>c. fst c = p) (calls s)"

text \<open>The test \<open>lastScreenshot && new Date(committedDate) <= new Date(lastScreenshot)\<close>.\<close>

definition upToDate :: "env \<Rightarrow> string \<Rightarrow> jsval \<Rightarrow> bool" where
  "upToDate env cd lastScreenshot = (ToBoolean lastScreenshot \<and> date_le env cd lastScreenshot)"

text \<open>
  The ledger entry of a name: the own property of the ledger object, \<open>None\<close> when the
  object has none or the ledger is no object.
\<close>

fun own :: "jsval \<Rightarrow> string \<Rightarrow> jsval option" where
  "own (JObj ps) k = map_of ps k"
| "own v k = None"

fun isObject :: "jsval \<Rightarrow> bool" where
  "isObject (JObj ps) = True"
| "isObject v = False"

text \<open>The values whose assignment is left to the engine: arrays and built-ins.\<close>

fun isExotic :: "jsval \<Rightarrow> bool" where
  "isExotic (JArr xs ps) = True"
| "isExotic (JNative n) = True"
| "isExotic v = False"

text \<open>The second of two runs in succession starts from the state file the first one left.\<close>

definition second_run :: "env \<Rightarrow> world \<Rightarrow> outcome" where
  "second_run env w = main env (w\<lparr>stateFile := file_after (main env w)\<rparr>)"

text \<open>
  A ledger on which the iteration of project \<open>p\<close> changes nothing and captures nothing:
  the query fails, or gives no commit date, or the read of the entry throws, or the
  value read is up to date with the commit date.
\<close>

definition settled :: "env \<Rightarrow> string \<Rightarrow> jsval \<Rightarrow> bool" where
  "settled env p ledger =
     (case getRepoInfo env REPO_OWNER p of
        Inl err \<Rightarrow> True
      | Inr info \<Rightarrow>
          (case committedDate info of
             None \<Rightarrow> True
           | Some cd \<Rightarrow>
               (case getProp env ledger p of
                  Inl err \<Rightarrow> True
                | Inr v \<Rightarrow> upToDate env cd v)))"

text \<open>The entries discovery keeps when it returns.\<close>

definition keeps :: "(string \<times> node) list \<Rightarrow> string \<Rightarrow> bool" where
  "keeps es name =
     (case lookup es [name, ''assets''] of
        Some (Dir files) \<Rightarrow> list_ex isShowcase (map fst files)
      | _ \<Rightarrow> False)"

subsection \<open>A concrete repository, for evaluating the definitions\<close>

text \<open>
  Seven folders below the root and a ledger with two entries. \<open>proj-a\<close> has a commit
  newer than its ledger entry and a homepage; \<open>proj-b\<close> is up to date; \<open>proj-c\<close> has no
  default branch; \<open>proj-d\<close> has an empty homepage; the query for \<open>proj-e\<close> fails; the
  page of \<open>proj-f\<close> does not load; \<open>notes\<close> has no showcase image.
\<close>

definition ex_entries :: "(string \<times> node) list" where
  "ex_entries =
     [(''.git'', Dir [(''assets'', Dir [(''Showcase.png'', File)])]),
      (''README.md'', File),
      (''proj-a'', Dir [(''assets'', Dir [(''Showcase.png'', File)])]),
      (''proj-b'', Dir [(''assets'', Dir [(''Showcase.webp'', File)])]),
      (''proj-c'', Dir [(''assets'', Dir [(''Showcase.png'', File), (''Showcase.webp'', File)])]),
      (''proj-d'', Dir [(''assets'', Dir [(''Showcase.png'', File)])]),
      (''proj-e'', Dir [(''assets'', Dir [(''Showcase.png'', File)])]),
      (''proj-f'', Dir [(''assets'', Dir [(''Showcase.webp'', File)])]),
      (''notes'', Dir [(''assets'', Dir [(''other.png'', File)])])]"

definition ex_projects :: "string list" where
  "ex_projects = [''proj-a'', ''proj-b'', ''proj-c'', ''proj-d'', ''proj-e'', ''proj-f'']"

definition t_jan :: string where "t_jan = ''2024-01-01T00:00:00Z''"
definition t_jun :: string where "t_jun = ''2024-06-01T00:00:00Z''"

definition ex_Date_parse :: "string \<Rightarrow> int option" where
  "ex_Date_parse s =
     (if s = t_jan then Some 1704067200000
      else if s = t_jun then Some 1717200000000
      else None)"

definition ex_ledger :: jsval where
  "ex_ledger =
     JObj [(''proj-b'', JStr t_jun), (''proj-a'', JStr t_jan), (''old-proj'', JStr t_jan)]"

text \<open>
  The ledger of the concrete repository after one run: when the page of \<open>proj-f\<close> does
  not load, and when every capture succeeds.
\<close>

definition ex_ledger1 :: jsval where
  "ex_ledger1 =
     JObj [(''proj-b'', JStr t_jun), (''proj-a'', JStr t_jun), (''old-proj'', JStr t_jan),
           (''proj-d'', JStr t_jun)]"

definition ex_ledger2 :: jsval where
  "ex_ledger2 =
     JObj [(''proj-b'', JStr t_jun), (''proj-a'', JStr t_jun), (''old-proj'', JStr t_jan),
           (''proj-d'', JStr t_jun), (''proj-f'', JStr t_jun)]"

text \<open>
  A stand-in for \<open>JSON\<close> that knows five documents: \<open>null\<close>, \<open>{}\<close>, the ledger above
  and the two ledgers after a run.
\<close>

definition ex_JSON_stringify :: "jsval \<Rightarrow> string" where
  "ex_JSON_stringify l =
     (if l = JNull then ''null''
      else if own l ''proj-a'' = None then ''{}''
      else if own l ''proj-a'' = Some (JStr t_jan) then ''{ledger}''
      else if own l ''proj-f'' = None then ''{ledger1}''
      else ''{ledger2}'')"

definition ex_JSON_parse :: "string \<Rightarrow> error + jsval" where
  "ex_JSON_parse s =
     (if s = ''null'' \<or> s = ''null'' @ [CHR 0x0A] then Inr JNull
      else if s = ''{}'' \<or> s = ''{}'' @ [CHR 0x0A] then Inr (JObj [])
      else if s = ''{ledger}'' @ [CHR 0x0A] then Inr ex_ledger
      else if s = ''{ledger1}'' @ [CHR 0x0A] then Inr ex_ledger1
      else if s = ''{ledger2}'' @ [CHR 0x0A] then Inr ex_ledger2
      else Inl (Error ''SyntaxError: Unexpected token''))"

definition ex_repo :: "string option \<Rightarrow> string option \<Rightarrow> gql_result" where
  "ex_repo home date =
     \<lparr> repository = Some \<lparr> repo_homepageUrl = home,
         repo_defaultBranchRef = Some \<lparr> ref_target = Some \<lparr> target_committedDate = date \<rparr> \<rparr> \<rparr> \<rparr>"

definition ex_graphql :: "string \<Rightarrow> string \<Rightarrow> error + gql_result" where
  "ex_graphql owner name =
     (if name = ''proj-a'' then Inr (ex_repo (Some ''https://example.com'') (Some t_jun))
      else if name = ''proj-b'' then Inr (ex_repo (Some ''https://b.example.com'') (Some t_jun))
      else if name = ''proj-c''
        then Inr \<lparr> repository = Some \<lparr> repo_homepageUrl = Some ''https://c.example.com'',
                    repo_defaultBranchRef = None \<rparr> \<rparr>
      else if name = ''proj-d'' then Inr (ex_repo (Some []) (Some t_jun))
      else if name = ''proj-f'' then Inr (ex_repo (Some ''https://f.example.com'') (Some t_jun))
      else if name = ''__proto__''
        then Inr (ex_repo (Some ''https://proto.example.com'') (Some t_jun))
      else Inl (Error ''Could not resolve to a Repository''))"

definition ex_puppeteer :: "string \<Rightarrow> string \<Rightarrow> session" where
  "ex_puppeteer url outputPath =
     \<lparr> launch = Inr (),
       page = (\<lambda>imageType. if url = ''https://f.example.com''
                 then Inl (Error ''Navigation timeout of 30000 ms exceeded'') else Inr ()),
       close = Inr () \<rparr>"

definition ex_env :: env where
  "ex_env =
     \<lparr> GITHUB_TOKEN = Some ''ghp_token'', ROOT_DIR = ''/repo'',
       JSON_parse = ex_JSON_parse, JSON_stringify = ex_JSON_stringify,
       Date_parse = ex_Date_parse, Date_value = (\<lambda>v. None),
       exotic_get = (\<lambda>v k. JUndefined),
       exotic_set = (\<lambda>v k cd. Inl (Error ''TypeError: Cannot assign'')),
       graphql = ex_graphql, puppeteer = ex_puppeteer \<rparr>"

text \<open>The same environment with a browser that never fails.\<close>

definition ok_puppeteer :: "string \<Rightarrow> string \<Rightarrow> session" where
  "ok_puppeteer url outputPath = \<lparr> launch = Inr (), page = (\<lambda>imageType. Inr ()), close = Inr () \<rparr>"

definition ex_env_ok :: env where
  "ex_env_ok = ex_env\<lparr>puppeteer := ok_puppeteer\<rparr>"

definition ex_world :: world where
  "ex_world = \<lparr> entries = ex_entries, stateFile = Regular (''{ledger}'' @ [CHR 0x0A]) \<rparr>"

text \<open>
  The concrete repository with a state file that holds \<open>null\<close>; a repository whose only
  folder is named \<open>__proto__\<close>, with no state file; and an environment in which no
  repository has a homepage.
\<close>

definition null_world :: world where
  "null_world = \<lparr> entries = ex_entries, stateFile = Regular ''null'' \<rparr>"

definition proto_world :: world where
  "proto_world =
     \<lparr> entries = [(''.github'', Dir [(''scripts'', Dir [(''screenshot.js'', File)])]),
                  (''__proto__'', Dir [(''assets'', Dir [(''Showcase.png'', File)])])],
       stateFile = Missing \<rparr>"

definition ex_env_nohome :: env where
  "ex_env_nohome = ex_env\<lparr>graphql := (\<lambda>owner name. Inr (ex_repo None (Some t_jun)))\<rparr>"


section \<open>Properties of the steps\<close>

lemma getRepoInfo_date_truthy:
  "getRepoInfo env owner name = Inr info \<Longrightarrow> committedDate info = Some cd \<Longrightarrow> cd \<noteq> []"
  by (auto simp: getRepoInfo_def or_null_def Let_def split: sum.splits if_splits)

lemma getRepoInfo_home_truthy:
  "getRepoInfo env owner name = Inr info \<Longrightarrow> homepageUrl info = Some url \<Longrightarrow> url \<noteq> []"
  by (auto simp: getRepoInfo_def or_null_def Let_def split: sum.splits if_splits)

lemma map_of_assign: "map_of (assign ps k x) = (map_of ps)(k \<mapsto> x)"
  by (induction ps) (auto simp: fun_eq_iff)

text \<open>On an object the assignment never throws, and records unless it meets the setter.\<close>

lemma setProp_object:
  "setProp env (JObj ps) k cd = Inr t \<Longrightarrow>
   isObject t \<and> (\<forall>q. q \<noteq> k \<longrightarrow> own t q = own (JObj ps) q) \<and>
   (k \<noteq> ''__proto__'' \<or> map_of ps k \<noteq> None \<longrightarrow> own t k = Some (JStr cd))"
  by (auto simp: map_of_assign split: if_splits)

lemma setProp_object_total: "\<exists>t. setProp env (JObj ps) k cd = Inr t"
  by simp

lemma setProp_frozen:
  "\<not> isObject v \<Longrightarrow> \<not> isExotic v \<Longrightarrow> setProp env v k cd = Inr t \<Longrightarrow> t = v"
  by (cases v) (auto split: if_splits)

lemma getProp_own:
  "isObject a \<Longrightarrow> isObject b \<Longrightarrow> own a k = own b k \<Longrightarrow> getProp env a k = getProp env b k"
  by (cases a; cases b) simp_all

lemmas step_defs = processProject_def tryProject_def say_def Let_def callsFor_def upToDate_def

lemma processProject_callsFor_other:
  "q \<noteq> p \<Longrightarrow> callsFor p (processProject env es q s) = callsFor p s"
  by (simp add: step_defs split: sum.splits option.splits)

lemma processProject_calls_mono:
  "set (calls s) \<subseteq> set (calls (processProject env es q s))"
  by (auto simp add: step_defs split: sum.splits option.splits)

lemma processProject_fetch_error:
  "getRepoInfo env REPO_OWNER p = Inl err \<Longrightarrow>
   timestamps (processProject env es p s) = timestamps s \<and>
   calls (processProject env es p s) = calls s"
  by (simp add: step_defs)

lemma processProject_no_date:
  "getRepoInfo env REPO_OWNER p = Inr info \<Longrightarrow> committedDate info = None \<Longrightarrow>
   timestamps (processProject env es p s) = timestamps s \<and>
   calls (processProject env es p s) = calls s"
  by (simp add: step_defs)

lemma processProject_read_throws:
  "getRepoInfo env REPO_OWNER p = Inr info \<Longrightarrow> committedDate info = Some cd \<Longrightarrow>
   getProp env (timestamps s) p = Inl err \<Longrightarrow>
   timestamps (processProject env es p s) = timestamps s \<and>
   calls (processProject env es p s) = calls s"
  by (simp add: step_defs)

lemma processProject_up_to_date:
  "getRepoInfo env REPO_OWNER p = Inr info \<Longrightarrow> committedDate info = Some cd \<Longrightarrow>
   getProp env (timestamps s) p = Inr v \<Longrightarrow> upToDate env cd v \<Longrightarrow>
   timestamps (processProject env es p s) = timestamps s \<and>
   calls (processProject env es p s) = calls s"
  by (simp add: step_defs)

lemma processProject_no_homepage:
  "getRepoInfo env REPO_OWNER p = Inr info \<Longrightarrow> committedDate info = Some cd \<Longrightarrow>
   getProp env (timestamps s) p = Inr v \<Longrightarrow> \<not> upToDate env cd v \<Longrightarrow>
   homepageUrl info = None \<Longrightarrow>
   timestamps (processProject env es p s) =
     (case setProp env (timestamps s) p cd of Inl err \<Rightarrow> timestamps s | Inr t \<Rightarrow> t) \<and>
   calls (processProject env es p s) = calls s"
  by (frule (1) getRepoInfo_date_truthy) (auto simp add: step_defs split: sum.splits)

lemma processProject_capture:
  "getRepoInfo env REPO_OWNER p = Inr info \<Longrightarrow> committedDate info = Some cd \<Longrightarrow>
   getProp env (timestamps s) p = Inr v \<Longrightarrow> \<not> upToDate env cd v \<Longrightarrow>
   homepageUrl info = Some url \<Longrightarrow>
   calls (processProject env es p s) = calls s @ [(p, url, getShowcasePath env es p)] \<and>
   timestamps (processProject env es p s) =
     (case snd (takeScreenshot env url (getShowcasePath env es p)) of
        Inl err \<Rightarrow> timestamps s
      | Inr u \<Rightarrow> (case setProp env (timestamps s) p cd of Inl err \<Rightarrow> timestamps s | Inr t \<Rightarrow> t))"
  by (frule (1) getRepoInfo_date_truthy, frule (1) getRepoInfo_home_truthy)
     (auto simp add: step_defs split: sum.splits)

text \<open>
  What an iteration can do to the ledger: nothing, or the assignment for its own project.
\<close>

lemma processProject_ledger:
  "timestamps (processProject env es q s) = timestamps s \<or>
   (\<exists>cd. setProp env (timestamps s) q cd = Inr (timestamps (processProject env es q s)))"
  by (auto simp add: step_defs split: sum.splits option.splits)

lemma processProject_object:
  assumes "isObject (timestamps s)"
  shows "isObject (timestamps (processProject env es q s))"
    and "q \<noteq> p \<Longrightarrow> own (timestamps (processProject env es q s)) p = own (timestamps s) p"
proof -
  from assms obtain ps where ps: "timestamps s = JObj ps"
    by (cases "timestamps s") auto
  from processProject_ledger [of env es q s]
  have "isObject (timestamps (processProject env es q s)) \<and>
        (q \<noteq> p \<longrightarrow> own (timestamps (processProject env es q s)) p = own (timestamps s) p)"
  proof
    assume "timestamps (processProject env es q s) = timestamps s"
    with assms show ?thesis by simp
  next
    assume "\<exists>cd. setProp env (timestamps s) q cd = Inr (timestamps (processProject env es q s))"
    then obtain cd where "setProp env (JObj ps) q cd = Inr (timestamps (processProject env es q s))"
      by (auto simp: ps)
    from setProp_object [OF this] show ?thesis
      by (auto simp: ps)
  qed
  then show "isObject (timestamps (processProject env es q s))"
    and "q \<noteq> p \<Longrightarrow> own (timestamps (processProject env es q s)) p = own (timestamps s) p"
    by simp_all
qed

lemma processProject_frozen:
  assumes "\<not> isObject (timestamps s)" and "\<not> isExotic (timestamps s)"
  shows "timestamps (processProject env es q s) = timestamps s"
  using processProject_ledger [of env es q s] setProp_frozen [OF assms] by auto

lemma processAll_append:
  "processAll env es (xs @ ys) s = processAll env es ys (processAll env es xs s)"
  by (induction xs arbitrary: s) simp_all

lemma processAll_calls_mono:
  "set (calls s) \<subseteq> set (calls (processAll env es ps s))"
proof (induction ps arbitrary: s)
  case Nil
  show ?case by simp
next
  case (Cons q ps)
  have "set (calls s) \<subseteq> set (calls (processProject env es q s))"
    by (rule processProject_calls_mono)
  also have "\<dots> \<subseteq> set (calls (processAll env es ps (processProject env es q s)))"
    by (rule Cons.IH)
  finally show ?case by simp
qed

lemma readTimestamps_total: "\<exists>l ms. readTimestamps env f = Inr (l, ms)"
  by (simp add: readTimestamps_def split: sum.splits)

lemma hasShowcase_filter:
  "hasShowcase es names = Inr kept \<Longrightarrow> kept = filter (keeps es) names"
proof (induction names arbitrary: kept)
  case Nil
  then show ?case by simp
next
  case (Cons n names)
  show ?case
  proof (cases "lookup es [n, ''assets'']")
    case None
    with Cons show ?thesis
      by (simp add: keeps_def existsSync_def del: lookup.simps)
  next
    case (Some a)
    show ?thesis
    proof (cases a)
      case File
      with Some Cons.prems show ?thesis
        by (simp add: existsSync_def readdirSync_def del: lookup.simps)
    next
      case (Dir files)
      with Some Cons show ?thesis
        by (simp add: keeps_def existsSync_def readdirSync_def del: lookup.simps
                 split: sum.splits if_splits)
    qed
  qed
qed

text \<open>Discovery throws exactly when a candidate folder holds a regular file \<open>assets\<close>.\<close>

lemma hasShowcase_throws:
  "(\<exists>e. hasShowcase es names = Inl e) \<longleftrightarrow>
   (\<exists>n\<in>set names. lookup es [n, ''assets''] = Some File)"
proof (induction names)
  case Nil
  show ?case by simp
next
  case (Cons n names)
  show ?case
  proof (cases "lookup es [n, ''assets'']")
    case None
    with Cons show ?thesis
      by (simp add: existsSync_def del: lookup.simps)
  next
    case (Some a)
    show ?thesis
    proof (cases a)
      case File
      with Some show ?thesis
        by (simp add: existsSync_def readdirSync_def del: lookup.simps)
    next
      case (Dir files)
      with Some Cons show ?thesis
        by (auto simp add: existsSync_def readdirSync_def simp del: lookup.simps split: sum.splits)
    qed
  qed
qed

lemma getProjectFolders_filter:
  "getProjectFolders es = Inr ps \<Longrightarrow>
   ps = filter (keeps es)
          (map fst (filter (\<lambda>entry. isDirectory (snd entry) \<and> \<not> startsWithDot (fst entry)) es))"
  unfolding getProjectFolders_def by (rule hasShowcase_filter)

lemma getProjectFolders_distinct:
  "getProjectFolders es = Inr ps \<Longrightarrow> distinct (map fst es) \<Longrightarrow> distinct ps"
  by (drule getProjectFolders_filter) (simp add: distinct_map_filter)

lemma main_run:
  assumes "truthy (GITHUB_TOKEN env)"
    and "readTimestamps env (stateFile w) = Inr (ts, warned)"
    and "getProjectFolders (entries w) = Inr ps"
  shows "timestamps (final (main env w)) =
           timestamps (processAll env (entries w) ps (start ts (warned @ [Found ps])))"
    and "calls (final (main env w)) =
           calls (processAll env (entries w) ps (start ts (warned @ [Found ps])))"
    and "set (console (processAll env (entries w) ps (start ts (warned @ [Found ps]))))
           \<subseteq> set (console (final (main env w)))"
    and "exitCode (main env w) =
           (case writeTimestamps env (stateFile w) (timestamps (final (main env w))) of
              Inl err \<Rightarrow> 1 | Inr f \<Rightarrow> 0)"
    and "file_after (main env w) =
           (case writeTimestamps env (stateFile w) (timestamps (final (main env w))) of
              Inl err \<Rightarrow> stateFile w | Inr f \<Rightarrow> f)"
  using assms by (auto simp: main_def Let_def say_def split: sum.splits)

lemma start_simps:
  "timestamps (start ts ms) = ts" "calls (start ts ms) = []" "callsFor p (start ts ms) = []"
  by (simp_all add: start_def callsFor_def)

lemma processProject_console_mono:
  "set (console s) \<subseteq> set (console (processProject env es q s))"
  by (auto simp add: step_defs split: sum.splits option.splits)

lemma processProject_processing:
  "Processing q \<in> set (console (processProject env es q s))"
  by (auto simp add: step_defs split: sum.splits option.splits)

lemma processAll_console_mono:
  "set (console s) \<subseteq> set (console (processAll env es ps s))"
proof (induction ps arbitrary: s)
  case Nil
  show ?case by simp
next
  case (Cons q ps)
  have "set (console s) \<subseteq> set (console (processProject env es q s))"
    by (rule processProject_console_mono)
  also have "\<dots> \<subseteq> set (console (processAll env es ps (processProject env es q s)))"
    by (rule Cons.IH)
  finally show ?case by simp
qed

lemma processAll_processing:
  "q \<in> set ps \<Longrightarrow> Processing q \<in> set (console (processAll env es ps s))"
proof (induction ps arbitrary: s)
  case Nil
  then show ?case by simp
next
  case (Cons r ps)
  show ?case
  proof (cases "q = r")
    case True
    have "Processing q \<in> set (console (processProject env es q s))"
      by (rule processProject_processing)
    then show ?thesis
      using processAll_console_mono [of "processProject env es q s" env es ps] True by auto
  next
    case False
    with Cons show ?thesis by simp
  qed
qed

lemma in_callsFor: "(p, u, x) \<in> set (callsFor p s) \<longleftrightarrow> (p, u, x) \<in> set (calls s)"
  by (simp add: callsFor_def)

lemma lookup_assets:
  "distinct (map fst es) \<Longrightarrow> (name, nd) \<in> set es \<Longrightarrow>
   lookup es [name, ''assets''] =
     (case nd of File \<Rightarrow> None
      | Dir ds \<Rightarrow> (case map_of ds ''assets'' of None \<Rightarrow> None
           | Some File \<Rightarrow> Some File | Some (Dir files) \<Rightarrow> Some (Dir files)))"
  by (simp split: node.splits option.splits)

lemma bex_one_of_two: "(\<exists>f\<in>S. f = a \<or> f = b) \<longleftrightarrow> (a \<in> S \<or> b \<in> S)"
  by blast

text \<open>
  When discovery returns, it keeps exactly the entries that are directories, have a
  name not starting with a dot, and hold a directory \<open>assets\<close> with an entry named
  \<open>Showcase.png\<close> or \<open>Showcase.webp\<close>.
\<close>

lemma getProjectFolders_keeps:
  assumes "getProjectFolders es = Inr ps" and "distinct (map fst es)"
  shows "p \<in> set ps \<longleftrightarrow>
    (\<exists>ds files. (p, Dir ds) \<in> set es \<and> \<not> startsWithDot p \<and>
       map_of ds ''assets'' = Some (Dir files) \<and>
       (''Showcase.png'' \<in> fst ` set files \<or> ''Showcase.webp'' \<in> fst ` set files))"
proof -
  have ps: "ps = filter (keeps es)
      (map fst (filter (\<lambda>entry. isDirectory (snd entry) \<and> \<not> startsWithDot (fst entry)) es))"
    using assms(1) by (rule getProjectFolders_filter)
  have ex: "list_ex isShowcase (map fst files) \<longleftrightarrow>
      (''Showcase.png'' \<in> fst ` set files \<or> ''Showcase.webp'' \<in> fst ` set files)" for files :: "(string \<times> node) list"
    unfolding list_ex_iff isShowcase_def set_map by (rule bex_one_of_two)
  show ?thesis
  proof
    assume "p \<in> set ps"
    then obtain nd where nd: "(p, nd) \<in> set es" "isDirectory nd" "\<not> startsWithDot p" "keeps es p"
      by (auto simp: ps)
    then obtain ds where ds: "nd = Dir ds"
      by (cases nd) auto
    from nd(4) lookup_assets [OF assms(2) nd(1)] ds
    obtain files where "map_of ds ''assets'' = Some (Dir files)" "list_ex isShowcase (map fst files)"
      by (auto simp: keeps_def simp del: lookup.simps split: option.splits node.splits)
    with nd ds show "\<exists>ds files. (p, Dir ds) \<in> set es \<and> \<not> startsWithDot p \<and>
       map_of ds ''assets'' = Some (Dir files) \<and>
       (''Showcase.png'' \<in> fst ` set files \<or> ''Showcase.webp'' \<in> fst ` set files)"
      using ex by blast
  next
    assume "\<exists>ds files. (p, Dir ds) \<in> set es \<and> \<not> startsWithDot p \<and>
       map_of ds ''assets'' = Some (Dir files) \<and>
       (''Showcase.png'' \<in> fst ` set files \<or> ''Showcase.webp'' \<in> fst ` set files)"
    then obtain ds files where h: "(p, Dir ds) \<in> set es" "\<not> startsWithDot p"
      "map_of ds ''assets'' = Some (Dir files)"
      "''Showcase.png'' \<in> fst ` set files \<or> ''Showcase.webp'' \<in> fst ` set files"
      by blast
    have "keeps es p"
      using lookup_assets [OF assms(2) h(1)] h(3,4) ex
      by (simp add: keeps_def del: lookup.simps)
    moreover have "p \<in> set (map fst (filter (\<lambda>entry. isDirectory (snd entry) \<and> \<not> startsWithDot (fst entry)) es))"
      using h(1,2) by force
    ultimately show "p \<in> set ps"
      by (simp add: ps)
  qed
qed

text \<open>Discovery throws exactly when a candidate folder holds a regular file \<open>assets\<close>.\<close>

lemma getProjectFolders_throws:
  "(\<exists>e. getProjectFolders es = Inl e) \<longleftrightarrow>
   (\<exists>name nd. (name, nd) \<in> set es \<and> isDirectory nd \<and> \<not> startsWithDot name \<and>
      lookup es [name, ''assets''] = Some File)"
  unfolding getProjectFolders_def hasShowcase_throws by (auto simp del: lookup.simps)

lemma getProp_object:
  "isObject t \<Longrightarrow>
   getProp env t k =
     Inr (case own t k of
            Some x \<Rightarrow> x
          | None \<Rightarrow> if k \<in> set Object_prototype then JNative k else JUndefined)"
  by (cases t) simp_all

lemma own_isObject: "own t k = Some v \<Longrightarrow> isObject t"
  by (cases t) simp_all

lemma processAll_callsFor_other:
  "p \<notin> set ps \<Longrightarrow> callsFor p (processAll env es ps s) = callsFor p s"
  by (induction ps arbitrary: s) (auto simp add: processProject_callsFor_other)

lemma processAll_object:
  "isObject (timestamps s) \<Longrightarrow>
   isObject (timestamps (processAll env es ps s)) \<and>
   (p \<notin> set ps \<longrightarrow> own (timestamps (processAll env es ps s)) p = own (timestamps s) p)"
proof (induction ps arbitrary: s)
  case Nil
  then show ?case by simp
next
  case (Cons q ps)
  from Cons.prems have obj: "isObject (timestamps (processProject env es q s))"
    by (rule processProject_object)
  from Cons.IH [OF obj] processProject_object(2) [OF Cons.prems, of q p env es]
  show ?case by auto
qed

lemma processAll_frozen:
  "\<not> isObject (timestamps s) \<Longrightarrow> \<not> isExotic (timestamps s) \<Longrightarrow>
   timestamps (processAll env es ps s) = timestamps s"
  by (induction ps arbitrary: s) (simp_all add: processProject_frozen)

text \<open>With distinct project names, what a run does to one project is one step.\<close>

lemma processAll_at:
  assumes "distinct ps" and "p \<in> set ps"
  shows "\<exists>s'.
    callsFor p s' = callsFor p s \<and>
    callsFor p (processAll env es ps s) = callsFor p (processProject env es p s') \<and>
    set (calls (processProject env es p s')) \<subseteq> set (calls (processAll env es ps s)) \<and>
    (isObject (timestamps s) \<longrightarrow>
       isObject (timestamps s') \<and> own (timestamps s') p = own (timestamps s) p \<and>
       isObject (timestamps (processAll env es ps s)) \<and>
       own (timestamps (processAll env es ps s)) p =
         own (timestamps (processProject env es p s')) p) \<and>
    (\<not> isObject (timestamps s) \<longrightarrow> \<not> isExotic (timestamps s) \<longrightarrow>
       timestamps s' = timestamps s \<and> timestamps (processAll env es ps s) = timestamps s)"
proof -
  from assms(2) obtain xs ys where ps: "ps = xs @ p # ys"
    by (auto dest: split_list)
  with assms(1) have nx: "p \<notin> set xs" and ny: "p \<notin> set ys"
    by auto
  let ?s' = "processAll env es xs s"
  have run: "processAll env es ps s = processAll env es ys (processProject env es p ?s')"
    by (simp add: ps processAll_append)
  have c1: "callsFor p ?s' = callsFor p s"
    using nx by (rule processAll_callsFor_other)
  have c2: "callsFor p (processAll env es ps s) = callsFor p (processProject env es p ?s')"
    using processAll_callsFor_other [OF ny] by (simp add: run)
  have c3: "set (calls (processProject env es p ?s')) \<subseteq> set (calls (processAll env es ps s))"
    unfolding run by (rule processAll_calls_mono)
  have c4: "isObject (timestamps ?s') \<and> own (timestamps ?s') p = own (timestamps s) p \<and>
       isObject (timestamps (processAll env es ps s)) \<and>
       own (timestamps (processAll env es ps s)) p =
         own (timestamps (processProject env es p ?s')) p"
    if obj: "isObject (timestamps s)"
  proof -
    from processAll_object [OF obj, of env es xs p] nx
    have a: "isObject (timestamps ?s')" "own (timestamps ?s') p = own (timestamps s) p"
      by simp_all
    from a(1) have "isObject (timestamps (processProject env es p ?s'))"
      by (rule processProject_object)
    from processAll_object [OF this, of env es ys p] ny
    have "isObject (timestamps (processAll env es ps s)) \<and>
          own (timestamps (processAll env es ps s)) p =
            own (timestamps (processProject env es p ?s')) p"
      by (simp add: run)
    with a show ?thesis by simp
  qed
  have c5: "timestamps ?s' = timestamps s \<and> timestamps (processAll env es ps s) = timestamps s"
    if "\<not> isObject (timestamps s)" "\<not> isExotic (timestamps s)"
    using that by (simp add: processAll_frozen)
  from c1 c2 c3 c4 c5 show ?thesis by blast
qed

text \<open>What a run does to one discovered project is one step from the loaded ledger.\<close>

lemma main_at:
  assumes token: "truthy (GITHUB_TOKEN env)"
    and names: "distinct (map fst (entries w))"
    and loaded: "readTimestamps env (stateFile w) = Inr (ts, warned)"
    and discovered: "getProjectFolders (entries w) = Inr ps"
    and member: "p \<in> set ps"
  shows "\<exists>s'.
    callsFor p s' = [] \<and>
    callsFor p (final (main env w)) = callsFor p (processProject env (entries w) p s') \<and>
    set (calls (processProject env (entries w) p s')) \<subseteq> set (calls (final (main env w))) \<and>
    (isObject ts \<longrightarrow>
       isObject (timestamps s') \<and> own (timestamps s') p = own ts p \<and>
       isObject (timestamps (final (main env w))) \<and>
       own (timestamps (final (main env w))) p =
         own (timestamps (processProject env (entries w) p s')) p) \<and>
    (\<not> isObject ts \<longrightarrow> \<not> isExotic ts \<longrightarrow>
       timestamps s' = ts \<and> timestamps (final (main env w)) = ts)"
proof -
  let ?s0 = "start ts (warned @ [Found ps])"
  note run = main_run [OF token loaded discovered]
  have dist: "distinct ps"
    using discovered names by (rule getProjectFolders_distinct)
  have cf: "callsFor p (final (main env w)) = callsFor p (processAll env (entries w) ps ?s0)"
    by (simp add: run(2) callsFor_def)
  from processAll_at [OF dist member, of ?s0 env "entries w"]
  show ?thesis
    unfolding cf run(1) run(2) by (simp add: start_simps)
qed

text \<open>
  A call of \<open>takeScreenshot\<close> made in an iteration and thrown leaves the ledger as the
  iteration found it.
\<close>

lemma processProject_capture_failed:
  assumes none: "callsFor p s = []"
    and call: "(p, url, path) \<in> set (calls (processProject env es p s))"
    and failed: "snd (takeScreenshot env url path) = Inl err"
  shows "timestamps (processProject env es p s) = timestamps s"
proof -
  have fresh: "(p, url, path) \<notin> set (calls s)"
    using none by (auto simp: callsFor_def filter_empty_conv)
  show ?thesis
  proof (cases "getRepoInfo env REPO_OWNER p")
    case (Inl e)
    then show ?thesis by (simp add: processProject_fetch_error)
  next
    case (Inr info)
    show ?thesis
    proof (cases "committedDate info")
      case None
      with Inr show ?thesis by (simp add: processProject_no_date)
    next
      case (Some cd)
      show ?thesis
      proof (cases "getProp env (timestamps s) p")
        case (Inl e)
        with \<open>getRepoInfo env REPO_OWNER p = Inr info\<close> Some show ?thesis
          by (simp add: processProject_read_throws)
      next
        case read: (Inr v)
        show ?thesis
        proof (cases "upToDate env cd v")
          case True
          with Inr Some read show ?thesis by (simp add: processProject_up_to_date)
        next
          case False
          show ?thesis
          proof (cases "homepageUrl info")
            case None
            from processProject_no_homepage [OF Inr Some read False None, of es]
            show ?thesis using call fresh by simp
          next
            case (Some u)
            from processProject_capture [OF Inr \<open>committedDate info = Some cd\<close> read False Some, of es]
            show ?thesis using call fresh failed by auto
          qed
        qed
      qed
    qed
  qed
qed

lemma processProject_settled:
  "settled env p (timestamps s) \<Longrightarrow>
   timestamps (processProject env es p s) = timestamps s \<and>
   calls (processProject env es p s) = calls s"
proof (cases "getRepoInfo env REPO_OWNER p")
  case (Inl e)
  then show ?thesis by (simp add: processProject_fetch_error)
next
  case (Inr info)
  assume settled: "settled env p (timestamps s)"
  show ?thesis
  proof (cases "committedDate info")
    case None
    with Inr show ?thesis by (simp add: processProject_no_date)
  next
    case (Some cd)
    show ?thesis
    proof (cases "getProp env (timestamps s) p")
      case (Inl e)
      with \<open>getRepoInfo env REPO_OWNER p = Inr info\<close> Some show ?thesis
        by (simp add: processProject_read_throws)
    next
      case read: (Inr v)
      with settled \<open>getRepoInfo env REPO_OWNER p = Inr info\<close> Some
      have "upToDate env cd v"
        by (simp add: settled_def)
      with \<open>getRepoInfo env REPO_OWNER p = Inr info\<close> Some read show ?thesis
        by (simp add: processProject_up_to_date)
    qed
  qed
qed

lemma processAll_settled:
  "\<forall>p\<in>set ps. settled env p (timestamps s) \<Longrightarrow>
   timestamps (processAll env es ps s) = timestamps s \<and>
   calls (processAll env es ps s) = calls s"
proof (induction ps arbitrary: s)
  case Nil
  show ?case by simp
next
  case (Cons q ps)
  then have step: "timestamps (processProject env es q s) = timestamps s"
    "calls (processProject env es q s) = calls s"
    by (simp_all add: processProject_settled)
  with Cons.prems have "\<forall>p\<in>set ps. settled env p (timestamps (processProject env es q s))"
    by simp
  from Cons.IH [OF this] step show ?case by simp
qed

lemma settled_own:
  "isObject a \<Longrightarrow> isObject b \<Longrightarrow> own a p = own b p \<Longrightarrow> settled env p a = settled env p b"
  by (simp add: settled_def getProp_object cong: sum.case_cong option.case_cong)

text \<open>
  After its iteration on a ledger object a project other than \<open>__proto__\<close> is settled,
  when the call of \<open>takeScreenshot\<close> made for it, if any, returned normally and its
  commit date parses.
\<close>

lemma processProject_settles:
  assumes obj: "isObject (timestamps s)"
    and name: "p \<noteq> ''__proto__''"
    and captured: "\<forall>c\<in>set (calls (processProject env es p s)).
             fst c = p \<longrightarrow> snd (takeScreenshot env (fst (snd c)) (snd (snd c))) = Inr ()"
    and dates: "\<forall>info cd. getRepoInfo env REPO_OWNER p = Inr info \<longrightarrow>
             committedDate info = Some cd \<longrightarrow> Date_parse env cd \<noteq> None"
  shows "settled env p (timestamps (processProject env es p s))"
proof (cases "getRepoInfo env REPO_OWNER p")
  case (Inl e)
  then show ?thesis by (simp add: settled_def)
next
  case (Inr info)
  show ?thesis
  proof (cases "committedDate info")
    case None
    with Inr show ?thesis by (simp add: settled_def)
  next
    case (Some cd)
    have ne: "cd \<noteq> []"
      using Inr Some by (rule getRepoInfo_date_truthy)
    from dates Inr Some obtain t where t: "Date_parse env cd = Some t"
      by auto
    have fresh: "upToDate env cd (JStr cd)"
      using ne t by (simp add: upToDate_def date_le_def toTime_def)
    from obj obtain ps where ps: "timestamps s = JObj ps"
      by (cases "timestamps s") auto
    obtain v where read: "getProp env (timestamps s) p = Inr v"
      by (simp add: ps)
    obtain ts' where set: "setProp env (timestamps s) p cd = Inr ts'"
      using setProp_object_total [of env ps p cd] by (auto simp: ps)
    from setProp_object [OF set [unfolded ps]] name
    have ts': "isObject ts'" "own ts' p = Some (JStr cd)"
      by simp_all
    then have recorded: "settled env p ts'"
      using Inr Some fresh by (simp add: settled_def getProp_object)
    show ?thesis
    proof (cases "upToDate env cd v")
      case True
      from processProject_up_to_date [OF Inr Some read True, of es]
      show ?thesis using Inr Some read True by (simp add: settled_def)
    next
      case False
      show ?thesis
      proof (cases "homepageUrl info")
        case None
        from processProject_no_homepage [OF Inr Some read False None, of es] recorded
        show ?thesis by (simp add: set)
      next
        case (Some url)
        note step = processProject_capture [OF Inr \<open>committedDate info = Some cd\<close> read False Some, of es]
        from step captured
        have "snd (takeScreenshot env url (getShowcasePath env es p)) = Inr ()"
          by simp
        with step recorded show ?thesis
          by (simp add: set)
      qed
    qed
  qed
qed

lemma processAll_settles:
  assumes dist: "distinct ps"
    and obj: "isObject (timestamps s)"
    and name: "''__proto__'' \<notin> set ps"
    and captured: "\<forall>c\<in>set (calls (processAll env es ps s)).
             snd (takeScreenshot env (fst (snd c)) (snd (snd c))) = Inr ()"
    and dates: "\<forall>p\<in>set ps. \<forall>info cd. getRepoInfo env REPO_OWNER p = Inr info \<longrightarrow>
             committedDate info = Some cd \<longrightarrow> Date_parse env cd \<noteq> None"
    and member: "p \<in> set ps"
  shows "settled env p (timestamps (processAll env es ps s))"
proof -
  from processAll_at [OF dist member, of s env es]
  obtain s' where
    sub: "set (calls (processProject env es p s')) \<subseteq> set (calls (processAll env es ps s))"
    and o: "isObject (timestamps s) \<longrightarrow>
       isObject (timestamps s') \<and> own (timestamps s') p = own (timestamps s) p \<and>
       isObject (timestamps (processAll env es ps s)) \<and>
       own (timestamps (processAll env es ps s)) p =
         own (timestamps (processProject env es p s')) p"
    by (elim exE conjE) (rule that)
  from o obj have s': "isObject (timestamps s')"
    and fin: "isObject (timestamps (processAll env es ps s))"
      "own (timestamps (processAll env es ps s)) p = own (timestamps (processProject env es p s')) p"
    by simp_all
  have "\<forall>c\<in>set (calls (processProject env es p s')).
          fst c = p \<longrightarrow> snd (takeScreenshot env (fst (snd c)) (snd (snd c))) = Inr ()"
    using captured sub by blast
  moreover have "\<forall>info cd. getRepoInfo env REPO_OWNER p = Inr info \<longrightarrow>
             committedDate info = Some cd \<longrightarrow> Date_parse env cd \<noteq> None"
    using dates member by blast
  moreover have "p \<noteq> ''__proto__''"
    using name member by auto
  ultimately have "settled env p (timestamps (processProject env es p s'))"
    using s' by (intro processProject_settles)
  moreover have "isObject (timestamps (processProject env es p s'))"
    using s' by (rule processProject_object)
  ultimately show ?thesis
    using fin by (simp add: settled_own [of "timestamps (processAll env es ps s)"
        "timestamps (processProject env es p s')"])
qed

text \<open>
  On a ledger that is an object, a project with a commit date, a homepage and an own
  entry that parses to an earlier instant, or with no entry and a name that is not a
  member of \<open>Object.prototype\<close>, is captured once, and its entry is the commit date when
  the capture returns and the loaded one when it throws.
\<close>

lemma capture_on_object_ledger:
  assumes token: "truthy (GITHUB_TOKEN env)"
    and names: "distinct (map fst (entries w))"
    and loaded: "readTimestamps env (stateFile w) = Inr (ts, warned)"
    and discovered: "getProjectFolders (entries w) = Inr ps"
    and member: "p \<in> set ps"
    and fetched: "getRepoInfo env REPO_OWNER p = Inr info"
    and date: "committedDate info = Some cd"
    and newer: "(isObject ts \<and> own ts p = None \<and> p \<notin> set Object_prototype) \<or>
                (\<exists>l a b. own ts p = Some (JStr l) \<and> Date_parse env l = Some a \<and>
                   Date_parse env cd = Some b \<and> a < b)"
    and home: "homepageUrl info = Some url"
  shows "callsFor p (final (main env w)) = [(p, url, getShowcasePath env (entries w) p)] \<and>
         own (timestamps (final (main env w))) p =
           (case snd (takeScreenshot env url (getShowcasePath env (entries w) p)) of
              Inl err \<Rightarrow> own ts p | Inr u \<Rightarrow> Some (JStr cd))"
proof -
  have obj: "isObject ts"
    using newer by (auto dest: own_isObject)
  from main_at [OF token names loaded discovered member]
  obtain s' where s': "callsFor p s' = []"
    and c: "callsFor p (final (main env w)) = callsFor p (processProject env (entries w) p s')"
    and o: "isObject ts \<longrightarrow>
       isObject (timestamps s') \<and> own (timestamps s') p = own ts p \<and>
       isObject (timestamps (final (main env w))) \<and>
       own (timestamps (final (main env w))) p =
         own (timestamps (processProject env (entries w) p s')) p"
    by (elim exE conjE) (rule that)
  from o obj have so: "isObject (timestamps s')" "own (timestamps s') p = own ts p"
    and t: "own (timestamps (final (main env w))) p =
         own (timestamps (processProject env (entries w) p s')) p"
    by simp_all
  from so(1) obtain qs where qs: "timestamps s' = JObj qs"
    by (cases "timestamps s'") auto
  let ?v = "case own ts p of Some x \<Rightarrow> x
            | None \<Rightarrow> if p \<in> set Object_prototype then JNative p else JUndefined"
  have read: "getProp env (timestamps s') p = Inr ?v"
    using so by (simp add: getProp_object)
  have stale: "\<not> upToDate env cd ?v"
    using newer by (auto simp: upToDate_def date_le_def toTime_def)
  have "p \<noteq> ''__proto__'' \<or> map_of qs p \<noteq> None"
    using newer so(2) by (auto simp: qs Object_prototype_def)
  with setProp_object [of env qs p cd] setProp_object_total [of env qs p cd]
  obtain t' where set: "setProp env (timestamps s') p cd = Inr t'" "own t' p = Some (JStr cd)"
    by (auto simp: qs)
  from processProject_capture [OF fetched date read stale home, of "entries w"]
  show ?thesis
    unfolding t c using s' so(2) set by (simp add: callsFor_def split: sum.splits)
qed

text \<open>The same for a project with no homepage: no capture, and the entry is the commit date.\<close>

lemma timestamp_on_object_ledger:
  assumes token: "truthy (GITHUB_TOKEN env)"
    and names: "distinct (map fst (entries w))"
    and loaded: "readTimestamps env (stateFile w) = Inr (ts, warned)"
    and discovered: "getProjectFolders (entries w) = Inr ps"
    and member: "p \<in> set ps"
    and fetched: "getRepoInfo env REPO_OWNER p = Inr info"
    and date: "committedDate info = Some cd"
    and newer: "(isObject ts \<and> own ts p = None \<and> p \<notin> set Object_prototype) \<or>
                (\<exists>l a b. own ts p = Some (JStr l) \<and> Date_parse env l = Some a \<and>
                   Date_parse env cd = Some b \<and> a < b)"
    and home: "homepageUrl info = None"
  shows "own (timestamps (final (main env w))) p = Some (JStr cd) \<and>
         callsFor p (final (main env w)) = []"
proof -
  have obj: "isObject ts"
    using newer by (auto dest: own_isObject)
  from main_at [OF token names loaded discovered member]
  obtain s' where s': "callsFor p s' = []"
    and c: "callsFor p (final (main env w)) = callsFor p (processProject env (entries w) p s')"
    and o: "isObject ts \<longrightarrow>
       isObject (timestamps s') \<and> own (timestamps s') p = own ts p \<and>
       isObject (timestamps (final (main env w))) \<and>
       own (timestamps (final (main env w))) p =
         own (timestamps (processProject env (entries w) p s')) p"
    by (elim exE conjE) (rule that)
  from o obj have so: "isObject (timestamps s')" "own (timestamps s') p = own ts p"
    and t: "own (timestamps (final (main env w))) p =
         own (timestamps (processProject env (entries w) p s')) p"
    by simp_all
  from so(1) obtain qs where qs: "timestamps s' = JObj qs"
    by (cases "timestamps s'") auto
  let ?v = "case own ts p of Some x \<Rightarrow> x
            | None \<Rightarrow> if p \<in> set Object_prototype then JNative p else JUndefined"
  have read: "getProp env (timestamps s') p = Inr ?v"
    using so by (simp add: getProp_object)
  have stale: "\<not> upToDate env cd ?v"
    using newer by (auto simp: upToDate_def date_le_def toTime_def)
  have "p \<noteq> ''__proto__'' \<or> map_of qs p \<noteq> None"
    using newer so(2) by (auto simp: qs Object_prototype_def)
  with setProp_object [of env qs p cd] setProp_object_total [of env qs p cd]
  obtain t' where set: "setProp env (timestamps s') p cd = Inr t'" "own t' p = Some (JStr cd)"
    by (auto simp: qs)
  from processProject_no_homepage [OF fetched date read stale home, of "entries w"]
  show ?thesis
    unfolding t c using s' set by (simp add: callsFor_def)
qed

section \<open>The concrete repository, evaluated\<close>

lemma ex_token: "truthy (GITHUB_TOKEN ex_env)"
  by (simp add: ex_env_def)

lemma ex_names: "distinct (map fst (entries ex_world))"
  by (simp add: ex_world_def ex_entries_def)

lemma ex_loaded: "readTimestamps ex_env (stateFile ex_world) = Inr (ex_ledger, [])"
  by (simp add: readTimestamps_def ex_world_def ex_env_def ex_JSON_parse_def)

lemma ex_discovered: "getProjectFolders (entries ex_world) = Inr ex_projects"
  by (simp add: getProjectFolders_def existsSync_def readdirSync_def isShowcase_def
        ex_world_def ex_entries_def ex_projects_def)

lemma ex_fetched:
  "getRepoInfo ex_env REPO_OWNER ''proj-a'' =
     Inr \<lparr> homepageUrl = Some ''https://example.com'', committedDate = Some t_jun \<rparr>"
  "getRepoInfo ex_env REPO_OWNER ''proj-b'' =
     Inr \<lparr> homepageUrl = Some ''https://b.example.com'', committedDate = Some t_jun \<rparr>"
  "getRepoInfo ex_env REPO_OWNER ''proj-c'' =
     Inr \<lparr> homepageUrl = Some ''https://c.example.com'', committedDate = None \<rparr>"
  "getRepoInfo ex_env REPO_OWNER ''proj-d'' =
     Inr \<lparr> homepageUrl = None, committedDate = Some t_jun \<rparr>"
  "getRepoInfo ex_env REPO_OWNER ''proj-e'' = Inl (Error ''Could not resolve to a Repository'')"
  "getRepoInfo ex_env REPO_OWNER ''proj-f'' =
     Inr \<lparr> homepageUrl = Some ''https://f.example.com'', committedDate = Some t_jun \<rparr>"
  "getRepoInfo ex_env REPO_OWNER ''__proto__'' =
     Inr \<lparr> homepageUrl = Some ''https://proto.example.com'', committedDate = Some t_jun \<rparr>"
  by (simp_all add: getRepoInfo_def or_null_def ex_env_def ex_graphql_def ex_repo_def t_jun_def)

lemma ex_paths:
  "getShowcasePath ex_env (entries ex_world) ''proj-a'' = ''/repo/proj-a/assets/Showcase.png''"
  "getShowcasePath ex_env (entries ex_world) ''proj-f'' = ''/repo/proj-f/assets/Showcase.webp''"
  by (simp_all add: getShowcasePath_def existsSync_def endsWith_def ex_env_def ex_world_def
        ex_entries_def)

lemma ex_shots:
  "snd (takeScreenshot ex_env ''https://example.com'' ''/repo/proj-a/assets/Showcase.png'') = Inr ()"
  "snd (takeScreenshot ex_env ''https://f.example.com'' ''/repo/proj-f/assets/Showcase.webp'') =
     Inl (Error ''Navigation timeout of 30000 ms exceeded'')"
  by (simp_all add: takeScreenshot_def ex_env_def ex_puppeteer_def Let_def)

lemma ex_dates:
  "Date_parse ex_env t_jan = Some 1704067200000"
  "Date_parse ex_env t_jun = Some 1717200000000"
  "Date_parse ex_env [] = None"
  by (simp_all add: ex_env_def ex_Date_parse_def t_jan_def t_jun_def)

lemma ex_members:
  "''proj-a'' \<in> set ex_projects" "''proj-b'' \<in> set ex_projects"
  "''proj-c'' \<in> set ex_projects" "''proj-d'' \<in> set ex_projects"
  "''proj-e'' \<in> set ex_projects" "''proj-f'' \<in> set ex_projects"
  "''old-proj'' \<notin> set ex_projects" "''__proto__'' \<notin> set ex_projects"
  by (simp_all add: ex_projects_def)

lemma ex_entries_of_ledger:
  "own ex_ledger ''proj-a'' = Some (JStr t_jan)" "own ex_ledger ''proj-b'' = Some (JStr t_jun)"
  "own ex_ledger ''proj-c'' = None" "own ex_ledger ''proj-d'' = None"
  "own ex_ledger ''proj-e'' = None" "own ex_ledger ''proj-f'' = None"
  "own ex_ledger ''old-proj'' = Some (JStr t_jan)" "isObject ex_ledger"
  by (simp_all add: ex_ledger_def)

lemma ex_plain_names:
  "''proj-a'' \<notin> set Object_prototype" "''proj-d'' \<notin> set Object_prototype"
  "''proj-f'' \<notin> set Object_prototype"
  by (simp_all add: Object_prototype_def)

lemma ex_written:
  "writeTimestamps ex_env (stateFile ex_world) l =
     Inr (Regular (JSON_stringify ex_env l @ [CHR 0x0A]))"
  by (simp add: writeTimestamps_def ex_world_def)

lemma ex_nonempty: "t_jan \<noteq> []" "t_jun \<noteq> []" "t_jun \<noteq> t_jan"
  by (simp_all add: t_jan_def t_jun_def)

lemma ex_run_a:
  "callsFor ''proj-a'' (final (main ex_env ex_world)) =
     [(''proj-a'', ''https://example.com'', ''/repo/proj-a/assets/Showcase.png'')]"
  "own (timestamps (final (main ex_env ex_world))) ''proj-a'' = Some (JStr t_jun)"
proof -
  have newer: "(isObject ex_ledger \<and> own ex_ledger ''proj-a'' = None \<and>
        ''proj-a'' \<notin> set Object_prototype) \<or>
      (\<exists>l a b. own ex_ledger ''proj-a'' = Some (JStr l) \<and> Date_parse ex_env l = Some a \<and>
         Date_parse ex_env t_jun = Some b \<and> a < b)"
    using ex_entries_of_ledger(1) ex_dates by simp
  from capture_on_object_ledger [OF ex_token ex_names ex_loaded ex_discovered ex_members(1)
      ex_fetched(1) _ newer, of "''https://example.com''"]
  show "callsFor ''proj-a'' (final (main ex_env ex_world)) =
     [(''proj-a'', ''https://example.com'', ''/repo/proj-a/assets/Showcase.png'')]"
    "own (timestamps (final (main ex_env ex_world))) ''proj-a'' = Some (JStr t_jun)"
    by (simp_all add: ex_paths ex_shots)
qed

lemma ex_run_f:
  "callsFor ''proj-f'' (final (main ex_env ex_world)) =
     [(''proj-f'', ''https://f.example.com'', ''/repo/proj-f/assets/Showcase.webp'')]"
  "own (timestamps (final (main ex_env ex_world))) ''proj-f'' = None"
proof -
  have newer: "(isObject ex_ledger \<and> own ex_ledger ''proj-f'' = None \<and>
        ''proj-f'' \<notin> set Object_prototype) \<or>
      (\<exists>l a b. own ex_ledger ''proj-f'' = Some (JStr l) \<and> Date_parse ex_env l = Some a \<and>
         Date_parse ex_env t_jun = Some b \<and> a < b)"
    using ex_entries_of_ledger ex_plain_names by simp
  from capture_on_object_ledger [OF ex_token ex_names ex_loaded ex_discovered ex_members(6)
      ex_fetched(6) _ newer, of "''https://f.example.com''"]
  show "callsFor ''proj-f'' (final (main ex_env ex_world)) =
     [(''proj-f'', ''https://f.example.com'', ''/repo/proj-f/assets/Showcase.webp'')]"
    "own (timestamps (final (main ex_env ex_world))) ''proj-f'' = None"
    by (simp_all add: ex_paths ex_shots ex_entries_of_ledger)
qed

lemma ex_call_f:
  "(''proj-f'', ''https://f.example.com'', ''/repo/proj-f/assets/Showcase.webp'')
     \<in> set (calls (final (main ex_env ex_world)))"
proof -
  have "(''proj-f'', ''https://f.example.com'', ''/repo/proj-f/assets/Showcase.webp'')
          \<in> set (callsFor ''proj-f'' (final (main ex_env ex_world)))"
    by (simp add: ex_run_f(1))
  then show ?thesis
    by (simp only: in_callsFor)
qed

lemma ex_exit: "exitCode (main ex_env ex_world) = 0"
  by (simp add: main_run(4) [OF ex_token ex_loaded ex_discovered] ex_written)

lemma ex_final_object: "timestamps (final (main ex_env ex_world)) \<noteq> JNull"
proof
  assume "timestamps (final (main ex_env ex_world)) = JNull"
  then have "own (timestamps (final (main ex_env ex_world))) ''proj-a'' = None"
    by simp
  then show False
    by (simp add: ex_run_a(2))
qed

lemma ex_file_after:
  "file_after (main ex_env ex_world) = Regular (''{ledger1}'' @ [CHR 0x0A])"
proof -
  have "JSON_stringify ex_env l = ex_JSON_stringify l" for l
    by (simp add: ex_env_def)
  then have "JSON_stringify ex_env (timestamps (final (main ex_env ex_world))) = ''{ledger1}''"
    using ex_nonempty by (simp add: ex_JSON_stringify_def ex_run_a(2) ex_run_f(2) ex_final_object)
  then show ?thesis
    by (simp add: main_run(5) [OF ex_token ex_loaded ex_discovered] ex_written)
qed

lemma ok_env:
  "GITHUB_TOKEN ex_env_ok = GITHUB_TOKEN ex_env"
  "Date_parse ex_env_ok = Date_parse ex_env"
  "Date_value ex_env_ok = Date_value ex_env"
  "graphql ex_env_ok = graphql ex_env"
  by (simp_all add: ex_env_ok_def)

lemma ok_getRepoInfo: "getRepoInfo ex_env_ok owner name = getRepoInfo ex_env owner name"
  by (simp add: getRepoInfo_def ok_env)

lemma ok_toTime: "toTime ex_env_ok v = toTime ex_env v"
  by (cases v) (simp_all add: toTime_def ok_env)

lemma ok_upToDate: "upToDate ex_env_ok cd v = upToDate ex_env cd v"
  by (simp add: upToDate_def date_le_def ok_toTime ok_env cong: option.case_cong)

lemma native_no_date:
  "\<not> upToDate ex_env cd (JNative n)" "\<not> upToDate ex_env_nohome cd (JNative n)"
  by (simp_all add: upToDate_def date_le_def toTime_def ex_env_nohome_def ex_env_def
        split: option.splits)

lemma ok_json:
  "JSON_parse ex_env_ok = ex_JSON_parse" "JSON_stringify ex_env_ok = ex_JSON_stringify"
  by (simp_all add: ex_env_ok_def ex_env_def)

lemma ok_shot: "snd (takeScreenshot ex_env_ok url outputPath) = Inr ()"
  by (simp add: takeScreenshot_def ex_env_ok_def ok_puppeteer_def Let_def)

lemma ok_loaded: "readTimestamps ex_env_ok (stateFile ex_world) = Inr (ex_ledger, [])"
  by (simp add: readTimestamps_def ex_world_def ok_json ex_JSON_parse_def)

lemma ok_token: "truthy (GITHUB_TOKEN ex_env_ok)"
  using ex_token by (simp add: ok_env)

text \<open>The run in which every capture succeeds, one iteration after the other.\<close>

lemma ok_run:
  "timestamps (final (main ex_env_ok ex_world)) = ex_ledger2"
proof -
  let ?es = "entries ex_world"
  let ?s0 = "start ex_ledger [Found ex_projects]"
  let ?s1 = "processProject ex_env_ok ?es ''proj-a'' ?s0"
  let ?s2 = "processProject ex_env_ok ?es ''proj-b'' ?s1"
  let ?s3 = "processProject ex_env_ok ?es ''proj-c'' ?s2"
  let ?s4 = "processProject ex_env_ok ?es ''proj-d'' ?s3"
  let ?s5 = "processProject ex_env_ok ?es ''proj-e'' ?s4"
  let ?s6 = "processProject ex_env_ok ?es ''proj-f'' ?s5"
  let ?l1 = "JObj [(''proj-b'', JStr t_jun), (''proj-a'', JStr t_jun), (''old-proj'', JStr t_jan)]"
  note fetched = ex_fetched [folded ok_getRepoInfo]
  have r0: "getProp ex_env_ok (timestamps ?s0) ''proj-a'' = Inr (JStr t_jan)"
    by (simp add: start_simps ex_ledger_def)
  have "\<not> upToDate ex_env_ok t_jun (JStr t_jan)"
    unfolding ok_upToDate by (simp add: upToDate_def date_le_def toTime_def ex_dates)
  from processProject_capture [OF fetched(1) _ r0 this, of "''https://example.com''" ?es]
  have t1: "timestamps ?s1 = ?l1"
    by (simp add: ok_shot start_simps ex_ledger_def)
  have r1: "getProp ex_env_ok (timestamps ?s1) ''proj-b'' = Inr (JStr t_jun)"
    by (simp add: t1)
  have "upToDate ex_env_ok t_jun (JStr t_jun)"
    unfolding ok_upToDate by (simp add: upToDate_def date_le_def toTime_def ex_dates ex_nonempty)
  from processProject_up_to_date [OF fetched(2) _ r1 this, of ?es]
  have t2: "timestamps ?s2 = ?l1"
    by (simp add: t1)
  from processProject_no_date [OF fetched(3), of ?es ?s2]
  have t3: "timestamps ?s3 = ?l1"
    by (simp add: t2)
  have r3: "getProp ex_env_ok (timestamps ?s3) ''proj-d'' = Inr JUndefined"
    by (simp add: t3 Object_prototype_def)
  have "\<not> upToDate ex_env_ok t_jun JUndefined"
    by (simp add: upToDate_def)
  from processProject_no_homepage [OF fetched(4) _ r3 this, of ?es]
  have t4: "timestamps ?s4 = ex_ledger1"
    by (simp add: t3 ex_ledger1_def)
  from processProject_fetch_error [OF fetched(5), of ?es ?s4]
  have t5: "timestamps ?s5 = ex_ledger1"
    by (simp add: t4)
  have r5: "getProp ex_env_ok (timestamps ?s5) ''proj-f'' = Inr JUndefined"
    by (simp add: t5 ex_ledger1_def Object_prototype_def)
  have "\<not> upToDate ex_env_ok t_jun JUndefined"
    by (simp add: upToDate_def)
  from processProject_capture [OF fetched(6) _ r5 this, of "''https://f.example.com''" ?es]
  have t6: "timestamps ?s6 = ex_ledger2"
    by (simp add: ok_shot t5 ex_ledger1_def ex_ledger2_def)
  have "processAll ex_env_ok ?es ex_projects ?s0 = ?s6"
    by (simp add: ex_projects_def)
  then show ?thesis
    using main_run(1) [OF ok_token ok_loaded ex_discovered] t6 by simp
qed

lemma null_loaded: "readTimestamps ex_env (stateFile null_world) = Inr (JNull, [])"
  by (simp add: readTimestamps_def null_world_def ex_env_def ex_JSON_parse_def)

lemma null_discovered:
  "getProjectFolders (entries null_world) = Inr ex_projects"
  "distinct (map fst (entries null_world))"
  using ex_discovered ex_names by (simp_all add: null_world_def ex_world_def)

text \<open>With a state file that holds \<open>null\<close> the read of line 178 throws in every iteration.\<close>

lemma null_run:
  assumes "p \<in> set ex_projects"
  shows "callsFor p (final (main ex_env null_world)) = []"
    and "timestamps (final (main ex_env null_world)) = JNull"
proof -
  from main_at [OF ex_token null_discovered(2) null_loaded null_discovered(1) assms]
  obtain s' where s': "callsFor p s' = []"
    and c: "callsFor p (final (main ex_env null_world)) =
              callsFor p (processProject ex_env (entries null_world) p s')"
    and f: "\<not> isObject JNull \<longrightarrow> \<not> isExotic JNull \<longrightarrow>
       timestamps s' = JNull \<and> timestamps (final (main ex_env null_world)) = JNull"
    by (elim exE conjE) (rule that)
  from f show "timestamps (final (main ex_env null_world)) = JNull"
    by simp
  from f have null: "timestamps s' = JNull"
    by simp
  have "calls (processProject ex_env (entries null_world) p s') = calls s'"
  proof (cases "getRepoInfo ex_env REPO_OWNER p")
    case (Inl e)
    then show ?thesis by (simp add: processProject_fetch_error)
  next
    case (Inr info)
    show ?thesis
    proof (cases "committedDate info")
      case None
      with Inr show ?thesis by (simp add: processProject_no_date)
    next
      case (Some cd)
      have "getProp ex_env (timestamps s') p = Inl (Error ''TypeError: Cannot read properties of null'')"
        by (simp add: null)
      from processProject_read_throws [OF Inr Some this] show ?thesis
        by simp
    qed
  qed
  then show "callsFor p (final (main ex_env null_world)) = []"
    unfolding c using s' by (simp add: callsFor_def)
qed

lemma proto_facts:
  "getProjectFolders (entries proto_world) = Inr [''__proto__'']"
  "distinct (map fst (entries proto_world))"
  "readTimestamps env (stateFile proto_world) = Inr (JObj [], [])"
  "getShowcasePath ex_env (entries proto_world) ''__proto__'' =
     ''/repo/__proto__/assets/Showcase.png''"
  "getShowcasePath ex_env_nohome (entries proto_world) ''__proto__'' =
     ''/repo/__proto__/assets/Showcase.png''"
  "snd (takeScreenshot ex_env ''https://proto.example.com''
     ''/repo/__proto__/assets/Showcase.png'') = Inr ()"
  by (simp_all add: getProjectFolders_def existsSync_def readdirSync_def isShowcase_def
        readTimestamps_def getShowcasePath_def endsWith_def takeScreenshot_def Let_def
        proto_world_def ex_env_nohome_def ex_env_def ex_puppeteer_def)

text \<open>
  On the folder \<open>__proto__\<close> the read gives \<open>Object.prototype\<close>, which is no date, and the
  assignment leaves the ledger as it is.
\<close>

lemma proto_step:
  assumes "isObject (timestamps s)" and "own (timestamps s) ''__proto__'' = None"
  shows "getProp env (timestamps s) ''__proto__'' = Inr (JNative ''__proto__'')"
    and "setProp env (timestamps s) ''__proto__'' cd = Inr (timestamps s)"
  using assms by (cases "timestamps s"; simp add: Object_prototype_def)+

lemma proto_run:
  "callsFor ''__proto__'' (final (main ex_env proto_world)) =
     [(''__proto__'', ''https://proto.example.com'', ''/repo/__proto__/assets/Showcase.png'')]"
  "own (timestamps (final (main ex_env proto_world))) ''__proto__'' = None"
proof -
  have member: "''__proto__'' \<in> set [''__proto__'']"
    by simp
  from main_at [OF ex_token proto_facts(2) proto_facts(3) proto_facts(1) member]
  obtain s' where s': "callsFor ''__proto__'' s' = []"
    and c: "callsFor ''__proto__'' (final (main ex_env proto_world)) =
              callsFor ''__proto__'' (processProject ex_env (entries proto_world) ''__proto__'' s')"
    and sub: "set (calls (processProject ex_env (entries proto_world) ''__proto__'' s'))
              \<subseteq> set (calls (final (main ex_env proto_world)))"
    and o: "isObject (JObj []) \<longrightarrow>
       isObject (timestamps s') \<and> own (timestamps s') ''__proto__'' = own (JObj []) ''__proto__'' \<and>
       isObject (timestamps (final (main ex_env proto_world))) \<and>
       own (timestamps (final (main ex_env proto_world))) ''__proto__'' =
         own (timestamps (processProject ex_env (entries proto_world) ''__proto__'' s')) ''__proto__''"
    by (elim exE conjE) (rule that)
  from o have so: "isObject (timestamps s')" "own (timestamps s') ''__proto__'' = None"
    and t: "own (timestamps (final (main ex_env proto_world))) ''__proto__'' =
         own (timestamps (processProject ex_env (entries proto_world) ''__proto__'' s')) ''__proto__''"
    by simp_all
  note step = proto_step [OF so]
  from processProject_capture [where es = "entries proto_world"
      and url = "''https://proto.example.com''", OF ex_fetched(7) _ step(1) native_no_date(1)]
  show "callsFor ''__proto__'' (final (main ex_env proto_world)) =
     [(''__proto__'', ''https://proto.example.com'', ''/repo/__proto__/assets/Showcase.png'')]"
    "own (timestamps (final (main ex_env proto_world))) ''__proto__'' = None"
    unfolding t c using s' so(2) by (simp_all add: step(2) proto_facts callsFor_def)
qed

lemma nohome_facts:
  "truthy (GITHUB_TOKEN ex_env_nohome)"
  "getRepoInfo ex_env_nohome REPO_OWNER ''__proto__'' =
     Inr \<lparr> homepageUrl = None, committedDate = Some t_jun \<rparr>"
  by (simp_all add: getRepoInfo_def or_null_def ex_env_nohome_def ex_env_def ex_repo_def t_jun_def)

lemma nohome_run:
  "callsFor ''__proto__'' (final (main ex_env_nohome proto_world)) = []"
  "own (timestamps (final (main ex_env_nohome proto_world))) ''__proto__'' = None"
proof -
  have member: "''__proto__'' \<in> set [''__proto__'']"
    by simp
  from main_at [OF nohome_facts(1) proto_facts(2) proto_facts(3) proto_facts(1) member]
  obtain s' where s': "callsFor ''__proto__'' s' = []"
    and c: "callsFor ''__proto__'' (final (main ex_env_nohome proto_world)) =
              callsFor ''__proto__''
                (processProject ex_env_nohome (entries proto_world) ''__proto__'' s')"
    and sub: "set (calls (processProject ex_env_nohome (entries proto_world) ''__proto__'' s'))
              \<subseteq> set (calls (final (main ex_env_nohome proto_world)))"
    and o: "isObject (JObj []) \<longrightarrow>
       isObject (timestamps s') \<and> own (timestamps s') ''__proto__'' = own (JObj []) ''__proto__'' \<and>
       isObject (timestamps (final (main ex_env_nohome proto_world))) \<and>
       own (timestamps (final (main ex_env_nohome proto_world))) ''__proto__'' =
         own (timestamps (processProject ex_env_nohome (entries proto_world) ''__proto__'' s'))
           ''__proto__''"
    by (elim exE conjE) (rule that)
  from o have so: "isObject (timestamps s')" "own (timestamps s') ''__proto__'' = None"
    and t: "own (timestamps (final (main ex_env_nohome proto_world))) ''__proto__'' =
         own (timestamps (processProject ex_env_nohome (entries proto_world) ''__proto__'' s'))
           ''__proto__''"
    by simp_all
  note step = proto_step [OF so]
  from processProject_no_homepage [where es = "entries proto_world",
      OF nohome_facts(2) _ step(1) native_no_date(2)]
  show "callsFor ''__proto__'' (final (main ex_env_nohome proto_world)) = []"
    "own (timestamps (final (main ex_env_nohome proto_world))) ''__proto__'' = None"
    unfolding t c using s' so(2) by (simp_all add: step(2) callsFor_def)
qed

section \<open>The claims\<close>

text \<open>
  C1. The script means to capture a project with a newer commit and a homepage once, and
  to record the commit date (line 198). On a folder named \<open>__proto__\<close>, with no state file:
  the folder is discovered, its repository has a homepage and a commit date, the ledger
  \<open>{}\<close> has no entry for it, the capture is made and returns, and the ledger still has no
  entry for it. With a state file that holds \<open>null\<close>, \<open>proj-a\<close> of the concrete repository,
  which has a homepage and a commit date, is not captured at all. The lemma
  \<open>capture_on_object_ledger\<close> above is what holds on a ledger that is an object, for the
  other names.
\<close>

theorem capture_not_recorded:
  "getProjectFolders (entries proto_world) = Inr [''__proto__''] \<and>
   readTimestamps ex_env (stateFile proto_world) = Inr (JObj [], []) \<and>
   getRepoInfo ex_env REPO_OWNER ''__proto__'' =
     Inr \<lparr> homepageUrl = Some ''https://proto.example.com'', committedDate = Some t_jun \<rparr> \<and>
   callsFor ''__proto__'' (final (main ex_env proto_world)) =
     [(''__proto__'', ''https://proto.example.com'', ''/repo/__proto__/assets/Showcase.png'')] \<and>
   snd (takeScreenshot ex_env ''https://proto.example.com''
          ''/repo/__proto__/assets/Showcase.png'') = Inr () \<and>
   own (timestamps (final (main ex_env proto_world))) ''__proto__'' = None \<and>
   readTimestamps ex_env (stateFile null_world) = Inr (JNull, []) \<and>
   getRepoInfo ex_env REPO_OWNER ''proj-a'' =
     Inr \<lparr> homepageUrl = Some ''https://example.com'', committedDate = Some t_jun \<rparr> \<and>
   callsFor ''proj-a'' (final (main ex_env null_world)) = []"
  using null_run(1) [OF ex_members(1)]
  by (simp add: proto_facts proto_run ex_fetched null_loaded)

text \<open>
  C2. A discovered project whose ledger entry, a string, and fetched commit date both
  parse as date-times, the entry's instant being the later one or the same: no call of
  \<open>takeScreenshot\<close> is made in its iteration and its ledger entry at the end of the run
  is the entry that was loaded. (\<open>new Date('')\<close> is an invalid date, which the
  hypothesis on \<open>Date_parse\<close> records.)
\<close>

theorem no_capture_when_up_to_date:
  assumes token: "truthy (GITHUB_TOKEN env)"
    and names: "distinct (map fst (entries w))"
    and loaded: "readTimestamps env (stateFile w) = Inr (ts, warned)"
    and discovered: "getProjectFolders (entries w) = Inr ps"
    and member: "p \<in> set ps"
    and fetched: "getRepoInfo env REPO_OWNER p = Inr info"
    and date: "committedDate info = Some cd"
    and empty_invalid: "Date_parse env [] = None"
    and entry: "own ts p = Some (JStr l)" "Date_parse env l = Some a"
    and commit: "Date_parse env cd = Some b"
    and older: "b \<le> a"
  shows "callsFor p (final (main env w)) = [] \<and>
         own (timestamps (final (main env w))) p = Some (JStr l)"
proof -
  have obj: "isObject ts"
    using entry(1) by (rule own_isObject)
  from main_at [OF token names loaded discovered member] obj
  obtain s' where s': "callsFor p s' = []" "isObject (timestamps s')"
      "own (timestamps s') p = own ts p"
    and c: "callsFor p (final (main env w)) = callsFor p (processProject env (entries w) p s')"
    and t: "own (timestamps (final (main env w))) p =
              own (timestamps (processProject env (entries w) p s')) p"
    by blast
  have read: "getProp env (timestamps s') p = Inr (JStr l)"
    using s'(2,3) entry(1) by (simp add: getProp_object)
  have "l \<noteq> []"
    using empty_invalid entry(2) by auto
  then have "upToDate env cd (JStr l)"
    using entry(2) commit older by (simp add: upToDate_def date_le_def toTime_def)
  from processProject_up_to_date [OF fetched date read this, of "entries w"]
  show ?thesis
    unfolding t c using s' entry(1) by (simp add: callsFor_def)
qed

theorem no_capture_when_up_to_date_witness:
  "own ex_ledger ''proj-b'' = Some (JStr t_jun) \<and>
   Date_parse ex_env t_jun = Some 1717200000000 \<and>
   callsFor ''proj-b'' (final (main ex_env ex_world)) = [] \<and>
   own (timestamps (final (main ex_env ex_world))) ''proj-b'' = Some (JStr t_jun)"
proof -
  have older: "(1717200000000::int) \<le> 1717200000000"
    by simp
  from no_capture_when_up_to_date [OF ex_token ex_names ex_loaded ex_discovered ex_members(2)
      ex_fetched(2) _ ex_dates(3) ex_entries_of_ledger(2) ex_dates(2) ex_dates(2) older]
  show ?thesis
    using ex_entries_of_ledger(2) ex_dates(2) by simp
qed

text \<open>
  C3 does not hold as stated. Two runs in succession on the concrete repository, where
  the page of \<open>proj-f\<close> does not load: the first run ends with exit status 0 and leaves
  the entry of \<open>proj-f\<close> absent, so the second run, with the same folders and the same
  responses, calls \<open>takeScreenshot\<close> for \<open>proj-f\<close> again.
\<close>

theorem second_run_captures_again:
  "exitCode (main ex_env ex_world) = 0 \<and>
   calls (final (second_run ex_env ex_world)) \<noteq> [] \<and>
   (''proj-f'', ''https://f.example.com'', ''/repo/proj-f/assets/Showcase.webp'')
     \<in> set (calls (final (second_run ex_env ex_world)))"
proof -
  let ?w' = "ex_world\<lparr>stateFile := Regular (''{ledger1}'' @ [CHR 0x0A])\<rparr>"
  have second: "second_run ex_env ex_world = main ex_env ?w'"
    by (simp add: second_run_def ex_file_after)
  have names': "distinct (map fst (entries ?w'))"
    using ex_names by simp
  have loaded': "readTimestamps ex_env (stateFile ?w') = Inr (ex_ledger1, [])"
    by (simp add: readTimestamps_def ex_env_def ex_JSON_parse_def)
  have discovered': "getProjectFolders (entries ?w') = Inr ex_projects"
    using ex_discovered by simp
  have newer: "(isObject ex_ledger1 \<and> own ex_ledger1 ''proj-f'' = None \<and>
        ''proj-f'' \<notin> set Object_prototype) \<or>
      (\<exists>l a b. own ex_ledger1 ''proj-f'' = Some (JStr l) \<and> Date_parse ex_env l = Some a \<and>
         Date_parse ex_env t_jun = Some b \<and> a < b)"
    using ex_plain_names by (simp add: ex_ledger1_def)
  from capture_on_object_ledger [OF ex_token names' loaded' discovered' ex_members(6)
      ex_fetched(6) _ newer, of "''https://f.example.com''"]
  have "(''proj-f'', ''https://f.example.com'', ''/repo/proj-f/assets/Showcase.webp'')
          \<in> set (callsFor ''proj-f'' (final (main ex_env ?w')))"
    using ex_paths(2) by simp
  then have call: "(''proj-f'', ''https://f.example.com'', ''/repo/proj-f/assets/Showcase.webp'')
          \<in> set (calls (final (second_run ex_env ex_world)))"
    by (simp only: in_callsFor second)
  then have "calls (final (second_run ex_env ex_world)) \<noteq> []"
    by auto
  with call ex_exit show ?thesis by blast
qed

text \<open>
  C3, amended. When the ledger the first run loads is an object, no discovered folder is
  named \<open>__proto__\<close>, the first run ends with exit status 0, the ledger it wrote reads
  back as written, every call of \<open>takeScreenshot\<close> it made returned normally and every
  commit date fetched for a discovered project parses as a date-time, a second run with
  the same folders and the same responses makes no call of \<open>takeScreenshot\<close>, ends
  with the ledger of the first run, and leaves the state file as the first run left it.
\<close>

theorem second_run_idle:
  assumes token: "truthy (GITHUB_TOKEN env)"
    and names: "distinct (map fst (entries w))"
    and loaded: "readTimestamps env (stateFile w) = Inr (ts, warned)"
    and object: "isObject ts"
    and discovered: "getProjectFolders (entries w) = Inr ps"
    and name: "''__proto__'' \<notin> set ps"
    and completed: "exitCode (main env w) = 0"
    and reread: "JSON_parse env (JSON_stringify env (timestamps (final (main env w))) @ [CHR 0x0A]) =
                   Inr (timestamps (final (main env w)))"
    and captured: "\<forall>c\<in>set (calls (final (main env w))).
                     snd (takeScreenshot env (fst (snd c)) (snd (snd c))) = Inr ()"
    and dates: "\<forall>p\<in>set ps. \<forall>info cd. getRepoInfo env REPO_OWNER p = Inr info \<longrightarrow>
                  committedDate info = Some cd \<longrightarrow> Date_parse env cd \<noteq> None"
  shows "calls (final (second_run env w)) = [] \<and>
         timestamps (final (second_run env w)) = timestamps (final (main env w)) \<and>
         file_after (second_run env w) = file_after (main env w) \<and>
         exitCode (second_run env w) = 0"
proof -
  note run = main_run [OF token loaded discovered]
  let ?s0 = "start ts (warned @ [Found ps])"
  let ?L = "timestamps (final (main env w))"
  let ?doc = "Regular (JSON_stringify env ?L @ [CHR 0x0A])"
  let ?w' = "w\<lparr>stateFile := file_after (main env w)\<rparr>"
  have dist: "distinct ps"
    using discovered names by (rule getProjectFolders_distinct)
  have saved: "file_after (main env w) = ?doc"
    using completed run(4) run(5)
    by (cases "stateFile w") (simp_all add: writeTimestamps_def)
  have loaded': "readTimestamps env (stateFile ?w') = Inr (?L, [])"
    by (simp add: saved readTimestamps_def reread)
  have discovered': "getProjectFolders (entries ?w') = Inr ps"
    using discovered by simp
  note run' = main_run [OF token loaded' discovered']
  have obj0: "isObject (timestamps ?s0)"
    using object by (simp add: start_simps)
  have "\<forall>p\<in>set ps. settled env p ?L"
    using processAll_settles [where env = env and es = "entries w" and ps = ps
        and s = ?s0, OF dist obj0 name _ dates]
      captured by (simp add: run(1,2))
  then have "\<forall>p\<in>set ps. settled env p (timestamps (start ?L ([] @ [Found ps])))"
    by (simp add: start_simps)
  from processAll_settled [OF this, of "entries w"]
  have idle: "timestamps (final (main env ?w')) = ?L" "calls (final (main env ?w')) = []"
    using run'(1,2) by (simp_all add: start_simps)
  have written: "writeTimestamps env (file_after (main env w)) ?L = Inr ?doc"
    by (simp add: saved writeTimestamps_def)
  have "file_after (main env ?w') = ?doc" "exitCode (main env ?w') = 0"
    using run'(4,5) by (simp_all add: idle written)
  with idle saved show ?thesis
    by (simp add: second_run_def)
qed

theorem second_run_idle_witness:
  "exitCode (main ex_env_ok ex_world) = 0 \<and>
   timestamps (final (main ex_env_ok ex_world)) = ex_ledger2 \<and>
   calls (final (second_run ex_env_ok ex_world)) = [] \<and>
   timestamps (final (second_run ex_env_ok ex_world)) = ex_ledger2 \<and>
   file_after (second_run ex_env_ok ex_world) = file_after (main ex_env_ok ex_world) \<and>
   exitCode (second_run ex_env_ok ex_world) = 0"
proof -
  have written: "writeTimestamps ex_env_ok (stateFile ex_world) l =
      Inr (Regular (JSON_stringify ex_env_ok l @ [CHR 0x0A]))" for l
    by (simp add: writeTimestamps_def ex_world_def)
  have completed: "exitCode (main ex_env_ok ex_world) = 0"
    by (simp add: main_run(4) [OF ok_token ok_loaded ex_discovered] written)
  have "JSON_stringify ex_env_ok ex_ledger2 = ''{ledger2}''"
    by (simp add: ok_json ex_JSON_stringify_def ex_ledger2_def t_jan_def t_jun_def)
  then have reread: "JSON_parse ex_env_ok
      (JSON_stringify ex_env_ok (timestamps (final (main ex_env_ok ex_world))) @ [CHR 0x0A]) =
      Inr (timestamps (final (main ex_env_ok ex_world)))"
    by (simp add: ok_run ok_json ex_JSON_parse_def)
  have captured: "\<forall>c\<in>set (calls (final (main ex_env_ok ex_world))).
      snd (takeScreenshot ex_env_ok (fst (snd c)) (snd (snd c))) = Inr ()"
    by (simp add: ok_shot)
  have dates: "\<forall>p\<in>set ex_projects. \<forall>info cd.
      getRepoInfo ex_env_ok REPO_OWNER p = Inr info \<longrightarrow>
      committedDate info = Some cd \<longrightarrow> Date_parse ex_env_ok cd \<noteq> None"
    using ex_fetched ex_dates by (auto simp: ex_projects_def ok_getRepoInfo ok_env)
  from second_run_idle [OF ok_token ex_names ok_loaded ex_entries_of_ledger(8) ex_discovered
      ex_members(8) completed reread captured dates]
  show ?thesis
    using completed by (simp add: ok_run)
qed

text \<open>
  C4. A discovered project whose fetched commit date is null: no call of
  \<open>takeScreenshot\<close> is made in its iteration, whatever the homepage URL and whatever the
  state file holds; its iteration leaves the whole ledger as it finds it, from every
  state; and at the end of the run its ledger entry, present or absent, and the value
  the script reads for it are the ones loaded (for every ledger but an array, on which
  the assignments made for other projects are the engine's).
\<close>

theorem null_commit_date_skips:
  assumes token: "truthy (GITHUB_TOKEN env)"
    and names: "distinct (map fst (entries w))"
    and loaded: "readTimestamps env (stateFile w) = Inr (ts, warned)"
    and discovered: "getProjectFolders (entries w) = Inr ps"
    and member: "p \<in> set ps"
    and fetched: "getRepoInfo env REPO_OWNER p = Inr info"
    and date: "committedDate info = None"
  shows "callsFor p (final (main env w)) = [] \<and>
         (\<forall>s. timestamps (processProject env (entries w) p s) = timestamps s \<and>
              calls (processProject env (entries w) p s) = calls s) \<and>
         (\<not> isExotic ts \<longrightarrow>
            own (timestamps (final (main env w))) p = own ts p \<and>
            getProp env (timestamps (final (main env w))) p = getProp env ts p)"
proof -
  from main_at [OF token names loaded discovered member]
  obtain s' where s': "callsFor p s' = []"
    and c: "callsFor p (final (main env w)) = callsFor p (processProject env (entries w) p s')"
    and o: "isObject ts \<longrightarrow>
       isObject (timestamps s') \<and> own (timestamps s') p = own ts p \<and>
       isObject (timestamps (final (main env w))) \<and>
       own (timestamps (final (main env w))) p =
         own (timestamps (processProject env (entries w) p s')) p"
    and f: "\<not> isObject ts \<longrightarrow> \<not> isExotic ts \<longrightarrow>
       timestamps s' = ts \<and> timestamps (final (main env w)) = ts"
    by (elim exE conjE) (rule that)
  note step = processProject_no_date [OF fetched date, of "entries w" s']
  have "callsFor p (final (main env w)) = []"
    unfolding c using s' step by (simp add: callsFor_def)
  moreover have "own (timestamps (final (main env w))) p = own ts p \<and>
      getProp env (timestamps (final (main env w))) p = getProp env ts p" if "\<not> isExotic ts"
  proof (cases "isObject ts")
    case True
    with o step have "isObject (timestamps (final (main env w)))"
      "own (timestamps (final (main env w))) p = own ts p"
      by simp_all
    with True show ?thesis
      by (simp add: getProp_object)
  next
    case False
    with f that show ?thesis by simp
  qed
  moreover have "\<forall>s. timestamps (processProject env (entries w) p s) = timestamps s \<and>
      calls (processProject env (entries w) p s) = calls s"
    using processProject_no_date [OF fetched date] by blast
  ultimately show ?thesis by blast
qed

theorem null_commit_date_skips_witness:
  "\<not> isExotic ex_ledger \<and>
   callsFor ''proj-c'' (final (main ex_env ex_world)) = [] \<and>
   own (timestamps (final (main ex_env ex_world))) ''proj-c'' = None \<and>
   getProp ex_env (timestamps (final (main ex_env ex_world))) ''proj-c'' = Inr JUndefined"
proof -
  have plain: "\<not> isExotic ex_ledger"
    by (simp add: ex_ledger_def)
  have read: "getProp ex_env ex_ledger ''proj-c'' = Inr JUndefined"
    by (simp add: ex_ledger_def Object_prototype_def)
  have date: "committedDate \<lparr> homepageUrl = Some ''https://c.example.com'',
      committedDate = None \<rparr> = None"
    by simp
  from null_commit_date_skips [OF ex_token ex_names ex_loaded ex_discovered ex_members(3)
      ex_fetched(3) date]
  have "callsFor ''proj-c'' (final (main ex_env ex_world)) = []"
    and "\<not> isExotic ex_ledger \<longrightarrow>
      own (timestamps (final (main ex_env ex_world))) ''proj-c'' = own ex_ledger ''proj-c'' \<and>
      getProp ex_env (timestamps (final (main ex_env ex_world))) ''proj-c'' =
        getProp ex_env ex_ledger ''proj-c''"
    by blast+
  then show ?thesis
    using plain read ex_entries_of_ledger(3) by simp
qed

text \<open>
  C5. The script means to record the commit date of a project with a newer commit and no
  homepage (lines 187 and 188: "Record the commit date so we don't recheck on every
  run"). On a folder named \<open>__proto__\<close>, with no state file and a repository without
  homepage, the ledger has no entry for the folder at the end of the run. With a state
  file that holds \<open>null\<close>, the ledger is still \<open>null\<close> at the end of the run, though
  \<open>proj-d\<close> has a commit date and no homepage. The lemma \<open>timestamp_on_object_ledger\<close>
  above is what holds on a ledger that is an object, for the other names.
\<close>

theorem timestamp_not_recorded:
  "getProjectFolders (entries proto_world) = Inr [''__proto__''] \<and>
   readTimestamps ex_env_nohome (stateFile proto_world) = Inr (JObj [], []) \<and>
   getRepoInfo ex_env_nohome REPO_OWNER ''__proto__'' =
     Inr \<lparr> homepageUrl = None, committedDate = Some t_jun \<rparr> \<and>
   own (timestamps (final (main ex_env_nohome proto_world))) ''__proto__'' = None \<and>
   readTimestamps ex_env (stateFile null_world) = Inr (JNull, []) \<and>
   getRepoInfo ex_env REPO_OWNER ''proj-d'' =
     Inr \<lparr> homepageUrl = None, committedDate = Some t_jun \<rparr> \<and>
   timestamps (final (main ex_env null_world)) = JNull"
  using null_run(2) [OF ex_members(4)]
  by (simp add: proto_facts nohome_facts nohome_run ex_fetched null_loaded)

text \<open>
  C6. When the query for a discovered project throws, or a call of \<open>takeScreenshot\<close>
  made for it throws, the ledger entry of the project at the end of the run, and the
  value the script reads for it, are the ones loaded (for every ledger but an array, on
  which the assignments made for other projects are the engine's); the iteration of the
  project leaves the whole ledger as it finds it, from every state in which no call
  has been made for it, whatever the ledger is;
  the iteration of every discovered project is still entered; and the run ends with
  exit status 0 when the final \<open>writeTimestamps\<close>, which lies outside the per-project
  \<open>try\<close>, does not throw.
\<close>

theorem error_leaves_entry:
  assumes token: "truthy (GITHUB_TOKEN env)"
    and names: "distinct (map fst (entries w))"
    and loaded: "readTimestamps env (stateFile w) = Inr (ts, warned)"
    and discovered: "getProjectFolders (entries w) = Inr ps"
    and member: "p \<in> set ps"
    and raised: "(\<exists>err. getRepoInfo env REPO_OWNER p = Inl err) \<or>
                 (\<exists>url path err. (p, url, path) \<in> set (calls (final (main env w))) \<and>
                    snd (takeScreenshot env url path) = Inl err)"
  shows "(\<not> isExotic ts \<longrightarrow>
            own (timestamps (final (main env w))) p = own ts p \<and>
            getProp env (timestamps (final (main env w))) p = getProp env ts p) \<and>
         (\<forall>s url path err. callsFor p s = [] \<longrightarrow>
            ((\<exists>e. getRepoInfo env REPO_OWNER p = Inl e) \<or>
             ((p, url, path) \<in> set (calls (processProject env (entries w) p s)) \<and>
              snd (takeScreenshot env url path) = Inl err)) \<longrightarrow>
            timestamps (processProject env (entries w) p s) = timestamps s) \<and>
         (\<forall>q\<in>set ps. Processing q \<in> set (console (final (main env w)))) \<and>
         ((\<exists>f. writeTimestamps env (stateFile w) (timestamps (final (main env w))) = Inr f)
            \<longrightarrow> exitCode (main env w) = 0)"
proof -
  let ?s0 = "start ts (warned @ [Found ps])"
  note run = main_run [OF token loaded discovered]
  from main_at [OF token names loaded discovered member]
  obtain s' where s': "callsFor p s' = []"
    and c: "callsFor p (final (main env w)) = callsFor p (processProject env (entries w) p s')"
    and o: "isObject ts \<longrightarrow>
       isObject (timestamps s') \<and> own (timestamps s') p = own ts p \<and>
       isObject (timestamps (final (main env w))) \<and>
       own (timestamps (final (main env w))) p =
         own (timestamps (processProject env (entries w) p s')) p"
    and f: "\<not> isObject ts \<longrightarrow> \<not> isExotic ts \<longrightarrow>
       timestamps s' = ts \<and> timestamps (final (main env w)) = ts"
    by (elim exE conjE) (rule that)
  have step: "timestamps (processProject env (entries w) p s') = timestamps s'"
    using raised
  proof
    assume "\<exists>err. getRepoInfo env REPO_OWNER p = Inl err"
    then show ?thesis by (auto simp: processProject_fetch_error)
  next
    assume "\<exists>url path err. (p, url, path) \<in> set (calls (final (main env w))) \<and>
              snd (takeScreenshot env url path) = Inl err"
    then obtain url path err where
      call: "(p, url, path) \<in> set (calls (final (main env w)))" and
      failed: "snd (takeScreenshot env url path) = Inl err"
      by blast
    from call have "(p, url, path) \<in> set (callsFor p (final (main env w)))"
      by (simp only: in_callsFor)
    then have made: "(p, url, path) \<in> set (calls (processProject env (entries w) p s'))"
      by (simp only: c in_callsFor)
    from s' made failed show ?thesis
      by (rule processProject_capture_failed)
  qed
  have "own (timestamps (final (main env w))) p = own ts p \<and>
      getProp env (timestamps (final (main env w))) p = getProp env ts p" if "\<not> isExotic ts"
  proof (cases "isObject ts")
    case True
    with o step have "isObject (timestamps (final (main env w)))"
      "own (timestamps (final (main env w))) p = own ts p"
      by simp_all
    with True show ?thesis
      by (simp add: getProp_object)
  next
    case False
    with f that show ?thesis by simp
  qed
  moreover have "\<forall>q\<in>set ps. Processing q \<in> set (console (final (main env w)))"
    using run(3) processAll_processing [of _ ps env "entries w" ?s0] by blast
  moreover have "(\<exists>f. writeTimestamps env (stateFile w) (timestamps (final (main env w))) = Inr f)
            \<longrightarrow> exitCode (main env w) = 0"
    by (auto simp: run(4))
  moreover have "\<forall>s url path err. callsFor p s = [] \<longrightarrow>
      ((\<exists>e. getRepoInfo env REPO_OWNER p = Inl e) \<or>
       ((p, url, path) \<in> set (calls (processProject env (entries w) p s)) \<and>
        snd (takeScreenshot env url path) = Inl err)) \<longrightarrow>
      timestamps (processProject env (entries w) p s) = timestamps s"
    using processProject_fetch_error [of env p] processProject_capture_failed [of p _ _ _ env]
    by blast
  ultimately show ?thesis by blast
qed

theorem error_leaves_entry_witness:
  "getRepoInfo ex_env REPO_OWNER ''proj-e'' = Inl (Error ''Could not resolve to a Repository'') \<and>
   own (timestamps (final (main ex_env ex_world))) ''proj-e'' = own ex_ledger ''proj-e'' \<and>
   snd (takeScreenshot ex_env ''https://f.example.com'' ''/repo/proj-f/assets/Showcase.webp'') =
     Inl (Error ''Navigation timeout of 30000 ms exceeded'') \<and>
   own (timestamps (final (main ex_env ex_world))) ''proj-f'' = own ex_ledger ''proj-f'' \<and>
   Processing ''proj-f'' \<in> set (console (final (main ex_env ex_world))) \<and>
   exitCode (main ex_env ex_world) = 0"
proof -
  have plain: "\<not> isExotic ex_ledger"
    by (simp add: ex_ledger_def)
  have e: "(\<exists>err. getRepoInfo ex_env REPO_OWNER ''proj-e'' = Inl err) \<or>
      (\<exists>url path err. (''proj-e'', url, path) \<in> set (calls (final (main ex_env ex_world))) \<and>
         snd (takeScreenshot ex_env url path) = Inl err)"
    using ex_fetched(5) by simp
  have f: "(\<exists>err. getRepoInfo ex_env REPO_OWNER ''proj-f'' = Inl err) \<or>
      (\<exists>url path err. (''proj-f'', url, path) \<in> set (calls (final (main ex_env ex_world))) \<and>
         snd (takeScreenshot ex_env url path) = Inl err)"
    using ex_call_f ex_shots(2) by blast
  from error_leaves_entry [OF ex_token ex_names ex_loaded ex_discovered ex_members(5) e]
    error_leaves_entry [OF ex_token ex_names ex_loaded ex_discovered ex_members(6) f]
  have e': "\<not> isExotic ex_ledger \<longrightarrow>
      own (timestamps (final (main ex_env ex_world))) ''proj-e'' = own ex_ledger ''proj-e''"
    and f': "\<not> isExotic ex_ledger \<longrightarrow>
      own (timestamps (final (main ex_env ex_world))) ''proj-f'' = own ex_ledger ''proj-f''"
    and entered: "\<forall>q\<in>set ex_projects. Processing q \<in> set (console (final (main ex_env ex_world)))"
    and status: "(\<exists>f. writeTimestamps ex_env (stateFile ex_world)
        (timestamps (final (main ex_env ex_world))) = Inr f) \<longrightarrow> exitCode (main ex_env ex_world) = 0"
    by blast+
  then show ?thesis
    using plain ex_fetched(5) ex_shots(2) ex_members(6) by (simp add: ex_written)
qed

text \<open>
  C7. \<open>readTimestamps\<close> never throws: it returns a value for every state of the state
  file; the empty ledger \<open>{}\<close>, with no console line, when the file is missing; and the
  empty ledger after the warning when the text of the file does not parse as JSON.
\<close>

theorem readTimestamps_fails_soft:
  "(\<exists>l ms. readTimestamps env f = Inr (l, ms)) \<and>
   readTimestamps env Missing = Inr (JObj [], []) \<and>
   (\<forall>text err. JSON_parse env text = Inl err \<longrightarrow>
      readTimestamps env (Regular text) = Inr (JObj [], [WarnParse]))"
  by (simp add: readTimestamps_def split: sum.splits)

theorem readTimestamps_fails_soft_witness:
  "JSON_parse ex_env ''{ not json'' = Inl (Error ''SyntaxError: Unexpected token'') \<and>
   readTimestamps ex_env (Regular ''{ not json'') = Inr (JObj [], [WarnParse])"
proof -
  have corrupt: "JSON_parse ex_env ''{ not json'' = Inl (Error ''SyntaxError: Unexpected token'')"
    by (simp add: ex_env_def ex_JSON_parse_def)
  from readTimestamps_fails_soft [of ex_env Missing] corrupt
  show ?thesis by blast
qed

text \<open>
  C8. Discovery is meant to keep an entry exactly when it is a directory, is not hidden,
  and holds a directory \<open>assets\<close> with an entry named \<open>Showcase.png\<close> or
  \<open>Showcase.webp\<close> (\<open>getProjectFolders_keeps\<close> above: so it does whenever it returns). It
  tests \<open>assets\<close> with \<open>existsSync\<close> only, and a folder holding a regular file named
  \<open>assets\<close> makes \<open>readdirSync\<close> throw: below, \<open>proj-a\<close> has its showcase image and
  \<open>proj-b\<close> holds a file \<open>assets\<close>, and the whole call throws instead of returning
  \<open>proj-a\<close> alone.
\<close>

theorem getProjectFolders_assets_file:
  "getProjectFolders
     [(''proj-a'', Dir [(''assets'', Dir [(''Showcase.png'', File)])]),
      (''proj-b'', Dir [(''assets'', File)])] =
   Inl (Error ''ENOTDIR: not a directory, scandir'')"
  by (simp add: getProjectFolders_def existsSync_def readdirSync_def)

text \<open>
  C9. With \<open>h\<close> and \<open>d\<close> the homepage URL and the commit date as the response holds
  them (\<open>None\<close> when the field or an object on the way to it is absent or null),
  \<open>getRepoInfo\<close> returns \<open>homepageUrl = null\<close> for every falsy \<open>h\<close>, the empty string in
  particular, and \<open>h\<close> itself otherwise; likewise \<open>committedDate\<close> for \<open>d\<close>.
\<close>

theorem getRepoInfo_falsy_is_null:
  assumes response: "graphql env owner name = Inr result"
    and home: "h = Option.bind (repository result) repo_homepageUrl"
    and date: "d = Option.bind (Option.bind (Option.bind (repository result)
                   repo_defaultBranchRef) ref_target) target_committedDate"
  shows "\<exists>info. getRepoInfo env owner name = Inr info \<and>
           (\<not> truthy h \<longrightarrow> homepageUrl info = None) \<and>
           (h = Some [] \<longrightarrow> homepageUrl info = None) \<and>
           (truthy h \<longrightarrow> homepageUrl info = h) \<and>
           (\<not> truthy d \<longrightarrow> committedDate info = None) \<and>
           (d = Some [] \<longrightarrow> committedDate info = None) \<and>
           (truthy d \<longrightarrow> committedDate info = d)"
  using assms by (auto simp: getRepoInfo_def or_null_def Let_def)

theorem getRepoInfo_falsy_is_null_witness:
  "graphql ex_env REPO_OWNER ''proj-d'' = Inr (ex_repo (Some []) (Some t_jun)) \<and>
   (\<exists>info. getRepoInfo ex_env REPO_OWNER ''proj-d'' = Inr info \<and>
      homepageUrl info = None \<and> committedDate info = Some t_jun)"
proof -
  have response: "graphql ex_env REPO_OWNER ''proj-d'' = Inr (ex_repo (Some []) (Some t_jun))"
    by (simp add: ex_env_def ex_graphql_def)
  have home: "Some [] = Option.bind (repository (ex_repo (Some []) (Some t_jun))) repo_homepageUrl"
    by (simp add: ex_repo_def)
  have date: "Some t_jun = Option.bind (Option.bind (Option.bind
      (repository (ex_repo (Some []) (Some t_jun))) repo_defaultBranchRef) ref_target)
      target_committedDate"
    by (simp add: ex_repo_def)
  have nonempty: "truthy (Some t_jun)"
    by (simp add: t_jun_def)
  from getRepoInfo_falsy_is_null [OF response home date] response nonempty
  show ?thesis by auto
qed

text \<open>
  C10. A name with an entry in the loaded ledger that is not among the discovered
  projects keeps that entry in the ledger at the end of the run, and the document the
  final \<open>writeTimestamps\<close> leaves on disk is the serialisation of that ledger.
\<close>

theorem stale_entries_preserved:
  assumes token: "truthy (GITHUB_TOKEN env)"
    and loaded: "readTimestamps env (stateFile w) = Inr (ts, warned)"
    and discovered: "getProjectFolders (entries w) = Inr ps"
    and stale: "q \<notin> set ps" "own ts q = Some v"
    and saved: "writeTimestamps env (stateFile w) (timestamps (final (main env w))) = Inr f"
  shows "own (timestamps (final (main env w))) q = Some v \<and>
         file_after (main env w) =
           Regular (JSON_stringify env (timestamps (final (main env w))) @ [CHR 0x0A])"
proof -
  have "isObject (timestamps (start ts (warned @ [Found ps])))"
    using stale(2) by (simp add: start_simps own_isObject)
  from processAll_object [OF this, of env "entries w" ps q] stale
  have "own (timestamps (final (main env w))) q = Some v"
    by (simp add: main_run(1) [OF token loaded discovered] start_simps)
  moreover have "f = Regular (JSON_stringify env (timestamps (final (main env w))) @ [CHR 0x0A])"
    using saved by (cases "stateFile w") (simp_all add: writeTimestamps_def)
  ultimately show ?thesis
    using saved by (simp add: main_run(5) [OF token loaded discovered])
qed

theorem stale_entries_preserved_witness:
  "''old-proj'' \<notin> set ex_projects \<and> own ex_ledger ''old-proj'' = Some (JStr t_jan) \<and>
   own (timestamps (final (main ex_env ex_world))) ''old-proj'' = Some (JStr t_jan) \<and>
   file_after (main ex_env ex_world) =
     Regular (JSON_stringify ex_env (timestamps (final (main ex_env ex_world))) @ [CHR 0x0A])"
proof -
  from stale_entries_preserved [OF ex_token ex_loaded ex_discovered ex_members(7)
      ex_entries_of_ledger(7) ex_written]
  show ?thesis
    using ex_members(7) ex_entries_of_ledger(7) by simp
qed

end
